theory Spec2Isabelle
  imports Complex_Main
begin

section \<open>Python values\<close>

text \<open>
  The program is Python. The values that reach the functions modelled here are \<open>None\<close>,
  strings and lists of strings (a verdict is a string, a compound verdict a list of strings).
  A string is a \<open>char list\<close>; the two en dashes of the question texts are written as their
  UTF-8 bytes.
\<close>

datatype pyval = PyNone | PyStr string | PyList "string list"

text \<open>The exceptions the modelled code can raise. The message of an exception is left out.\<close>

datatype error = KeyError | ValueError | IndexError | RuntimeError | TypeError | AttributeError

text \<open>
  A dictionary is an association list in insertion order; \<open>d.get(k)\<close> is \<open>None\<close> on a
  missing key.
\<close>

definition dict_get :: "(string \<times> pyval) list \<Rightarrow> string \<Rightarrow> pyval" where
  "dict_get d k = (case map_of d k of None \<Rightarrow> PyNone | Some v \<Rightarrow> v)"

text \<open>
  A Python string is a sequence of characters (code points); the model holds its UTF-8
  bytes. \<open>chars\<close> cuts the bytes into characters by the length the first byte of each
  announces, and \<open>codepoint\<close> decodes a character. \<open>len\<close> and slices count characters.
  A string holding a lone surrogate has no UTF-8 form and is not covered.
\<close>

definition seq_len :: "char \<Rightarrow> nat" where
  "seq_len c =
     (let n = (of_char c :: nat) in
      if 0xC0 \<le> n \<and> n < 0xE0 then 2
      else if 0xE0 \<le> n \<and> n < 0xF0 then 3
      else if 0xF0 \<le> n \<and> n < 0xF8 then 4
      else 1)"

fun chars :: "string \<Rightarrow> string list" where
  "chars [] = []"
| "chars (c # cs) = (c # take (seq_len c - 1) cs) # chars (drop (seq_len c - 1) cs)"

definition codepoint :: "string \<Rightarrow> nat" where
  "codepoint ch =
     (case map (of_char :: char \<Rightarrow> nat) ch of
        [a] \<Rightarrow> a
      | [a, b] \<Rightarrow> (a mod 32) * 64 + b mod 64
      | [a, b, c] \<Rightarrow> (a mod 16) * 4096 + (b mod 64) * 64 + c mod 64
      | [a, b, c, d] \<Rightarrow> (a mod 8) * 262144 + (b mod 64) * 4096 + (c mod 64) * 64 + d mod 64
      | _ \<Rightarrow> 0)"

definition py_len :: "string \<Rightarrow> nat" where
  "py_len s = length (chars s)"

text \<open>
  \<open>str(x)\<close>, as an f-string applies it. The \<open>repr\<close> of a string quotes it (double quotes
  when it holds a single quote and no double quote) and escapes the backslash, the quote,
  the control characters and every character beyond ASCII that is not printable. Which
  characters beyond ASCII are printable is a table of the interpreter's Unicode database;
  it is the parameter \<open>isprintable\<close>, on code points.
\<close>

definition hex_digit :: "nat \<Rightarrow> char" where
  "hex_digit n = ''0123456789abcdef'' ! (n mod 16)"

fun hex :: "nat \<Rightarrow> nat \<Rightarrow> string" where
  "hex 0 n = []"
| "hex (Suc w) n = hex w (n div 16) @ [hex_digit n]"

definition repr_char :: "(nat \<Rightarrow> bool) \<Rightarrow> char \<Rightarrow> string \<Rightarrow> string" where
  "repr_char isprintable q ch =
     (let n = codepoint ch in
      if ch = [CHR 0x5C] then [CHR 0x5C, CHR 0x5C]
      else if ch = [q] then [CHR 0x5C, q]
      else if ch = [CHR 0x09] then [CHR 0x5C, CHR ''t'']
      else if ch = [CHR 0x0A] then [CHR 0x5C, CHR ''n'']
      else if ch = [CHR 0x0D] then [CHR 0x5C, CHR ''r'']
      else if n < 0x20 \<or> n = 0x7F then [CHR 0x5C, CHR ''x''] @ hex 2 n
      else if n < 0x7F then ch
      else if isprintable n then ch
      else if n < 0x100 then [CHR 0x5C, CHR ''x''] @ hex 2 n
      else if n < 0x10000 then [CHR 0x5C, CHR ''u''] @ hex 4 n
      else [CHR 0x5C, CHR ''U''] @ hex 8 n)"

definition py_repr_str :: "(nat \<Rightarrow> bool) \<Rightarrow> string \<Rightarrow> string" where
  "py_repr_str isprintable s =
     (let q = (if CHR 0x27 \<in> set s \<and> CHR 0x22 \<notin> set s then CHR 0x22 else CHR 0x27)
      in [q] @ concat (map (repr_char isprintable q) (chars s)) @ [q])"

fun join :: "string \<Rightarrow> string list \<Rightarrow> string" where
  "join sep [] = []"
| "join sep [x] = x"
| "join sep (x # y # ys) = x @ sep @ join sep (y # ys)"

fun py_str :: "(nat \<Rightarrow> bool) \<Rightarrow> pyval \<Rightarrow> string" where
  "py_str isprintable PyNone = ''None''"
| "py_str isprintable (PyStr s) = s"
| "py_str isprintable (PyList xs) = ''['' @ join '', '' (map (py_repr_str isprintable) xs) @ '']''"

section \<open>Floats\<close>

text \<open>
  A Python float is an IEEE binary64 value: a finite number, an infinity or NaN. A finite
  float is represented by the real number it denotes, so two finite floats compare as
  their values do (and \<open>-0.0\<close> equals \<open>0.0\<close>). Every comparison with NaN is false. The
  model admits every real as a finite value, which is more than the binary64 values.
\<close>

datatype pyfloat = Finite real | PosInf | NegInf | NaN

fun float_ge :: "pyfloat \<Rightarrow> pyfloat \<Rightarrow> bool" where
  "float_ge NaN y = False"
| "float_ge x NaN = False"
| "float_ge PosInf y = True"
| "float_ge x NegInf = True"
| "float_ge (Finite a) (Finite b) = (b \<le> a)"
| "float_ge x y = False"

fun float_lt :: "pyfloat \<Rightarrow> pyfloat \<Rightarrow> bool" where
  "float_lt NaN y = False"
| "float_lt x NaN = False"
| "float_lt PosInf y = False"
| "float_lt x NegInf = False"
| "float_lt (Finite a) (Finite b) = (a < b)"
| "float_lt x y = True"

text \<open>
  A decimal literal denotes the binary64 value nearest to it. The literals below lie in
  \<open>[1/2, 1)\<close>, where binary64 values are the multiples of \<open>2^-53\<close> (\<open>2^53 = 9007199254740992\<close>).
\<close>

definition float_0_6 :: pyfloat where
  "float_0_6 = Finite (5404319552844595 / 9007199254740992)"

definition float_0_7 :: pyfloat where
  "float_0_7 = Finite (6305039478318694 / 9007199254740992)"

definition float_0_85 :: pyfloat where
  "float_0_85 = Finite (7656119366529843 / 9007199254740992)"

definition float_0_95 :: pyfloat where
  "float_0_95 = Finite (8556839292003942 / 9007199254740992)"

section \<open>utils.py: scores to verdicts\<close>

definition COMPLIED_THRESHOLD :: pyfloat where
  "COMPLIED_THRESHOLD = float_0_85"

definition MINOR_NC_THRESHOLD :: pyfloat where
  "MINOR_NC_THRESHOLD = float_0_7"

definition MAJOR_NC_THRESHOLD :: pyfloat where
  "MAJOR_NC_THRESHOLD = float_0_6"

definition score_to_verdict :: "pyfloat \<Rightarrow> pyfloat \<Rightarrow> string" where
  "score_to_verdict relevance completeness =
     (if float_ge relevance COMPLIED_THRESHOLD \<and> float_ge completeness COMPLIED_THRESHOLD
        then ''Complied''
      else if float_lt relevance MAJOR_NC_THRESHOLD \<or> float_lt completeness MAJOR_NC_THRESHOLD
        then ''Major NC''
      else if float_ge relevance MINOR_NC_THRESHOLD \<and> float_ge completeness MINOR_NC_THRESHOLD
        then ''Minor NC''
      else ''Opportunity for Improvement'')"

section \<open>utils.py: recommendations and checklist\<close>

text \<open>
  An analysis is the dictionary \<open>{"clause": ..., "verdict": ...}\<close>. The comparison
  \<open>v == "Complied"\<close> is false for \<open>None\<close> and for every list.
\<close>

definition generate_recommendations :: "(string \<times> pyval) list \<Rightarrow> string list" where
  "generate_recommendations analysis =
     (let v = dict_get analysis ''verdict''; recs = [] in
      if v = PyStr ''Complied'' then
        recs @ [''Pertahankan praktik yang telah berjalan dengan baik.'']
      else if v = PyStr ''Minor NC'' then
        recs @ [''Perbaiki detail yang kurang untuk memenuhi standar penuh.'']
             @ [''Tinjau kembali dokumentasi dan lengkapi bagian yang belum memadai.'']
      else if v = PyStr ''Opportunity for Improvement'' then
        recs @ [''Pertimbangkan untuk meningkatkan proses meski sudah memenuhi syarat minimal.'']
             @ [''Tuliskan prosedur lebih rinci untuk meningkatkan konsistensi implementasi.'']
      else
        recs @ [''Segera implementasikan proses sesuai klausul yang belum ada.'']
             @ [''Susun dan dokumentasikan prosedur dasar untuk kepatuhan awal.''])"

text \<open>
  The loop of \<open>generate_checklist\<close>, with the list built so far as accumulator. The
  f-string of a line applies \<open>str\<close>, which needs the table \<open>isprintable\<close>.
\<close>

fun checklist_loop ::
  "(nat \<Rightarrow> bool) \<Rightarrow> (string \<times> pyval) list list \<Rightarrow> string list \<Rightarrow> string list" where
  "checklist_loop isprintable [] checklist = checklist"
| "checklist_loop isprintable (analysis # rest) checklist =
     (let clause_v = dict_get analysis ''clause'';
          verdict_v = dict_get analysis ''verdict'' in
      if verdict_v \<noteq> PyStr ''Complied'' then
        checklist_loop isprintable rest
          (checklist @ [''Tinjau dan perbaiki klausul '' @ py_str isprintable clause_v
                        @ '': verdict = '' @ py_str isprintable verdict_v])
      else checklist_loop isprintable rest checklist)"

definition generate_checklist ::
  "(nat \<Rightarrow> bool) \<Rightarrow> (string \<times> pyval) list list \<Rightarrow> string list" where
  "generate_checklist isprintable analysis_list =
     (let checklist = checklist_loop isprintable analysis_list [] in
      if checklist = [] then
        checklist @ [''Semua klausul telah terpenuhi. Tidak ada tindakan tambahan yang diperlukan.'']
      else checklist)"

section \<open>decision_tree.py: the clause graphs\<close>

text \<open>
  The target of an option is either the id of the next step (a string) or the dictionary
  \<open>{"verdict": ...}\<close>. A step is \<open>{"question": ..., "options": {...}}\<close>, a clause
  \<open>{"title": ..., "steps": {...}}\<close>; the inner dictionaries keep their insertion order.
\<close>

datatype transition = Continue string | Terminal pyval

record step =
  question :: string
  options :: "(string \<times> transition) list"

record clause =
  title :: string
  steps :: "(string \<times> step) list"

definition en_dash :: string where
  "en_dash = [CHR 0xE2, CHR 0x80, CHR 0x93]"

definition title_4_1 :: string where
  "title_4_1 = ''Understanding the organization and its context''"

definition question_4_1_1 :: string where
  "question_4_1_1 =
     ''Does the organization have a defined process (formal or informal) for identifying external issues (e.g., market conditions, regulatory environment, cultural, social factors) relevant to information security?''"

definition question_4_1_2 :: string where
  "question_4_1_2 =
     ''Does the organization have a defined process for identifying internal issues (e.g., organizational structure, strategic objectives, internal culture, resource constraints) that affect ISMS outcomes?''"

definition question_4_1_3 :: string where
  "question_4_1_3 =
     ''Where are these issues documented or recorded? (e.g., strategic plan, context analysis document, risk register)''"

definition question_4_1_4 :: string where
  "question_4_1_4 =
     ''Is there a schedule or trigger to review and update these external/internal issues?''"

definition question_4_1_5 :: string where
  "question_4_1_5 =
     ''Do the identified issues clearly align with the organization's purpose and influence on the ISMS objectives?''"

definition title_4_2 :: string where
  "title_4_2 = ''Understanding the needs and expectations of interested parties''"

definition question_4_2_1 :: string where
  "question_4_2_1 =
     ''Does the organization identify all relevant interested parties (e.g., customers, regulators, suppliers, employees) for the ISMS?''"

definition question_4_2_2 :: string where
  "question_4_2_2 =
     ''Has the organization documented the requirements (legal, regulatory, contractual) of these interested parties?''"

definition question_4_2_3 :: string where
  "question_4_2_3 =
     ''Has the organization decided which of these requirements are relevant and to be addressed within the ISMS?''"

definition question_4_2_4 :: string where
  "question_4_2_4 =
     ''Is there documented evidence of how these decisions were made and what was included/excluded?''"

definition question_4_2_5 :: string where
  "question_4_2_5 =
     ''Are relevant stakeholders (e.g., leadership, ISMS team) aware of which requirements must be met?''"

definition title_4_3 :: string where
  "title_4_3 = ''Determining the scope of the information security management system''"

definition question_4_3_1 :: string where
  "question_4_3_1 =
     ''Does the organization have a formal or informal process to define the boundaries and applicability of the ISMS?''"

definition question_4_3_2 :: string where
  "question_4_3_2 =
     ''Did the organization factor in the external/internal issues (4.1) and interested party requirements (4.2) when defining scope?''"

definition question_4_3_3 :: string where
  "question_4_3_3 =
     ''Does the scope account for activities performed by external parties (outsourcers, partners, vendors) that could affect information security?''"

definition question_4_3_4 :: string where
  "question_4_3_4 =
     ''Is the scope documented (e.g., in a formal ISMS scope statement) and accessible to relevant stakeholders?''"

definition question_4_3_5 :: string where
  "question_4_3_5 =
     ''Does the documented scope clearly specify all locations, assets, and processes included (and excluded), as well as justifications?''"

definition title_4_4 :: string where
  "title_4_4 = ''Information security management system''"

definition question_4_4_1 :: string where
  "question_4_4_1 =
     ''Has the organization established and implemented an ISMS framework (policies, processes, responsibilities) in line with Clause 4.1'' @ en_dash @ ''4.3?''"

definition question_4_4_2 :: string where
  "question_4_4_2 =
     ''Is there a mechanism for maintaining the ISMS and updating it as changes occur (e.g., new risks, new technologies)?''"

definition question_4_4_3 :: string where
  "question_4_4_3 =
     ''Does the organization document how various processes interact and support information security objectives?''"

definition question_4_4_4 :: string where
  "question_4_4_4 =
     ''Are all ISO 27001 clauses (5'' @ en_dash @ ''10) planned for or already integrated into the ISMS (not just Clause 4)?''"

definition question_4_4_5 :: string where
  "question_4_4_5 =
     ''Is the ISMS documentation (manual, procedures, records) readily available to those who need it?''"

definition clause_4_1 :: clause where
  "clause_4_1 = \<lparr>title = title_4_1, steps = [
     (''1'', \<lparr>question = question_4_1_1,
         options = [(''Yes'', Continue ''2''),
                    (''No'', Terminal (PyStr ''Major NC''))]\<rparr>),
     (''2'', \<lparr>question = question_4_1_2,
         options = [(''Yes'', Continue ''3''),
                    (''No'', Terminal (PyStr ''Major NC''))]\<rparr>),
     (''3'', \<lparr>question = question_4_1_3,
         options = [(''Clear Documentation'', Continue ''4''),
                    (''Partial / Verbal Only'', Terminal (PyList [''Minor NC'', ''OFI'']))]\<rparr>),
     (''4'', \<lparr>question = question_4_1_4,
         options = [(''Regularly Reviewed'', Continue ''5''),
                    (''Irregular or Not Formalized'', Terminal (PyList [''Minor NC'', ''OFI'']))]\<rparr>),
     (''5'', \<lparr>question = question_4_1_5,
         options = [(''Yes'', Terminal (PyStr ''Complied'')),
                    (''Partially or Vague'', Terminal (PyList [''OFI'', ''Minor NC'']))]\<rparr>)]\<rparr>"

definition clause_4_2 :: clause where
  "clause_4_2 = \<lparr>title = title_4_2, steps = [
     (''1'', \<lparr>question = question_4_2_1,
         options = [(''Yes'', Continue ''2''),
                    (''No'', Terminal (PyStr ''Major NC''))]\<rparr>),
     (''2'', \<lparr>question = question_4_2_2,
         options = [(''Yes'', Continue ''3''),
                    (''No'', Terminal (PyList [''Major NC'', ''Minor NC'']))]\<rparr>),
     (''3'', \<lparr>question = question_4_2_3,
         options = [(''Yes'', Continue ''4''),
                    (''No'', Terminal (PyStr ''Major NC''))]\<rparr>),
     (''4'', \<lparr>question = question_4_2_4,
         options = [(''Comprehensive'', Continue ''5''),
                    (''Partial'', Terminal (PyList [''Minor NC'', ''OFI'']))]\<rparr>),
     (''5'', \<lparr>question = question_4_2_5,
         options = [(''Yes'', Terminal (PyStr ''Complied'')),
                    (''No'', Terminal (PyStr ''Minor NC''))]\<rparr>)]\<rparr>"

definition clause_4_3 :: clause where
  "clause_4_3 = \<lparr>title = title_4_3, steps = [
     (''1'', \<lparr>question = question_4_3_1,
         options = [(''Yes'', Continue ''2''),
                    (''No'', Terminal (PyStr ''Major NC''))]\<rparr>),
     (''2'', \<lparr>question = question_4_3_2,
         options = [(''Yes'', Continue ''3''),
                    (''No'', Terminal (PyList [''Minor NC'', ''Major NC'']))]\<rparr>),
     (''3'', \<lparr>question = question_4_3_3,
         options = [(''Yes'', Continue ''4''),
                    (''No'', Terminal (PyList [''Minor NC'', ''Major NC'']))]\<rparr>),
     (''4'', \<lparr>question = question_4_3_4,
         options = [(''Yes'', Continue ''5''),
                    (''No'', Terminal (PyStr ''Minor NC''))]\<rparr>),
     (''5'', \<lparr>question = question_4_3_5,
         options = [(''Yes'', Terminal (PyStr ''Complied'')),
                    (''Partial'', Terminal (PyList [''OFI'', ''Minor NC'']))]\<rparr>)]\<rparr>"

definition clause_4_4 :: clause where
  "clause_4_4 = \<lparr>title = title_4_4, steps = [
     (''1'', \<lparr>question = question_4_4_1,
         options = [(''Yes'', Continue ''2''),
                    (''No'', Terminal (PyStr ''Major NC''))]\<rparr>),
     (''2'', \<lparr>question = question_4_4_2,
         options = [(''Yes'', Continue ''3''),
                    (''No'', Terminal (PyStr ''Minor NC''))]\<rparr>),
     (''3'', \<lparr>question = question_4_4_3,
         options = [(''Fully'', Continue ''4''),
                    (''Partially'', Terminal (PyList [''OFI'', ''Minor NC'']))]\<rparr>),
     (''4'', \<lparr>question = question_4_4_4,
         options = [(''Yes'', Continue ''5''),
                    (''No'', Terminal (PyStr ''Minor NC''))]\<rparr>),
     (''5'', \<lparr>question = question_4_4_5,
         options = [(''Yes'', Terminal (PyStr ''Complied'')),
                    (''No'', Terminal (PyList [''OFI'', ''Minor NC'']))]\<rparr>)]\<rparr>"

definition decision_trees :: "(string \<times> clause) list" where
  "decision_trees = [(''4.1'', clause_4_1), (''4.2'', clause_4_2), (''4.3'', clause_4_3), (''4.4'', clause_4_4)]"
text \<open>The subscript chain \<open>g[clause_id]["steps"][step]["options"]\<close>; a missing key raises.\<close>

definition options_of ::
  "(string \<times> clause) list \<Rightarrow> string \<Rightarrow> string \<Rightarrow> error + (string \<times> transition) list" where
  "options_of g clause_id step_id =
     (case map_of g clause_id of
        None \<Rightarrow> Inl KeyError
      | Some tree \<Rightarrow>
          (case map_of (steps tree) step_id of
             None \<Rightarrow> Inl KeyError
           | Some st \<Rightarrow> Inr (options st)))"

definition get_question :: "string \<Rightarrow> string \<Rightarrow> error + string" where
  "get_question clause_id step_id =
     (case map_of decision_trees clause_id of
        None \<Rightarrow> Inl KeyError
      | Some tree \<Rightarrow>
          (case map_of (steps tree) step_id of
             None \<Rightarrow> Inl KeyError
           | Some st \<Rightarrow> Inr (question st)))"

definition get_options :: "string \<Rightarrow> string \<Rightarrow> error + string list" where
  "get_options clause_id step_id =
     (case options_of decision_trees clause_id step_id of
        Inl e \<Rightarrow> Inl e
      | Inr opts \<Rightarrow> Inr (map fst opts))"

text \<open>
  What \<open>evaluate_answer\<close> returns: the next step id, or a fresh dictionary
  \<open>{"verdict": ...}\<close>.
\<close>

datatype answer_result = NextStep string | Verdict pyval

text \<open>
  \<open>evaluate_answer\<close> on a dictionary of clause graphs; the module's is \<open>decision_trees\<close>.
\<close>

definition evaluate_answer_on ::
  "(string \<times> clause) list \<Rightarrow> string \<Rightarrow> string \<Rightarrow> string \<Rightarrow> error + answer_result" where
  "evaluate_answer_on g clause_id step_id answer =
     (case options_of g clause_id step_id of
        Inl e \<Rightarrow> Inl e
      | Inr opts \<Rightarrow>
          (case map_of opts answer of
             None \<Rightarrow> Inl ValueError
           | Some (Continue target) \<Rightarrow> Inr (NextStep target)
           | Some (Terminal v) \<Rightarrow> Inr (Verdict v)))"

definition evaluate_answer :: "string \<Rightarrow> string \<Rightarrow> string \<Rightarrow> error + answer_result" where
  "evaluate_answer clause_id step_id answer =
     evaluate_answer_on decision_trees clause_id step_id answer"

section \<open>app.py: the driver and the summary\<close>

text \<open>
  The driver holds the current step of a clause. A submitted answer goes through
  \<open>evaluate_answer\<close>: a verdict is recorded and ends the clause (later answers are not
  asked for), a step id becomes the current step.
\<close>

datatype position = AtStep string | Finished pyval

fun submit_answers :: "string \<Rightarrow> string \<Rightarrow> string list \<Rightarrow> error + position" where
  "submit_answers cid step_id [] = Inr (AtStep step_id)"
| "submit_answers cid step_id (choice # rest) =
     (case evaluate_answer cid step_id choice of
        Inl e \<Rightarrow> Inl e
      | Inr (Verdict v) \<Rightarrow> Inr (Finished v)
      | Inr (NextStep s) \<Rightarrow> submit_answers cid s rest)"

text \<open>
  The verdict counters: a dictionary with the four verdicts at zero, then one pass over
  \<open>responses.items()\<close>. \<open>verdict[0]\<close> raises on an empty list.
\<close>

definition verdict_counts_init :: "(string \<times> int) list" where
  "verdict_counts_init =
     [(''Complied'', 0), (''Minor NC'', 0), (''Opportunity for Improvement'', 0), (''Major NC'', 0)]"

definition primary :: "pyval \<Rightarrow> error + pyval" where
  "primary v =
     (case v of
        PyList xs \<Rightarrow> (case xs of [] \<Rightarrow> Inl IndexError | x # _ \<Rightarrow> Inr (PyStr x))
      | _ \<Rightarrow> Inr v)"

definition in_counts :: "pyval \<Rightarrow> (string \<times> int) list \<Rightarrow> bool" where
  "in_counts v counts = (case v of PyStr s \<Rightarrow> s \<in> set (map fst counts) | _ \<Rightarrow> False)"

definition increment :: "pyval \<Rightarrow> (string \<times> int) list \<Rightarrow> (string \<times> int) list" where
  "increment v counts = map (\<lambda>(k, n). if PyStr k = v then (k, n + 1) else (k, n)) counts"

fun count_loop :: "(string \<times> pyval) list \<Rightarrow> (string \<times> int) list \<Rightarrow> error + (string \<times> int) list" where
  "count_loop [] counts = Inr counts"
| "count_loop ((cid, v) # rest) counts =
     (case primary v of
        Inl e \<Rightarrow> Inl e
      | Inr p \<Rightarrow> count_loop rest (if in_counts p counts then increment p counts else counts))"

definition verdict_counts :: "(string \<times> pyval) list \<Rightarrow> error + (string \<times> int) list" where
  "verdict_counts responses = count_loop responses verdict_counts_init"

text \<open>
  The quick recommendations: the recommendations of every recorded verdict, then
  \<open>dict.fromkeys\<close>, which keeps the first occurrence of each line.
\<close>

definition fromkeys :: "string list \<Rightarrow> string list" where
  "fromkeys xs = fold (\<lambda>x ks. if x \<in> set ks then ks else ks @ [x]) xs []"

definition all_recs :: "(string \<times> pyval) list \<Rightarrow> string list" where
  "all_recs responses =
     concat (map (\<lambda>(cid, v). generate_recommendations [(''clause'', PyStr cid), (''verdict'', v)])
       responses)"

definition quick_recommendations :: "(string \<times> pyval) list \<Rightarrow> string list" where
  "quick_recommendations responses = fromkeys (all_recs responses)"

section \<open>llm_assessment.py: the open-ended evaluation\<close>

text \<open>
  What \<open>json.loads\<close> returns: \<open>None\<close>, a boolean, a number (an int or a float, held by
  its value), a string, a list or a dictionary.
\<close>

datatype json = JNull | JBool bool | JNum pyfloat | JStr string | JArr "json list"
  | JObj "(string \<times> json) list"

text \<open>The truth value of an object, as \<open>or\<close> tests it.\<close>

definition truthy :: "json \<Rightarrow> bool" where
  "truthy j =
     (case j of
        JNull \<Rightarrow> False
      | JBool b \<Rightarrow> b
      | JNum x \<Rightarrow> (case x of Finite r \<Rightarrow> r \<noteq> 0 | _ \<Rightarrow> True)
      | JStr s \<Rightarrow> s \<noteq> []
      | JArr xs \<Rightarrow> xs \<noteq> []
      | JObj kv \<Rightarrow> kv \<noteq> [])"

text \<open>\<open>x.get(k, default)\<close>: only a dictionary has the method.\<close>

definition json_get :: "json \<Rightarrow> string \<Rightarrow> json \<Rightarrow> error + json" where
  "json_get j k d =
     (case j of
        JObj kv \<Rightarrow> Inr (case map_of kv k of None \<Rightarrow> d | Some v \<Rightarrow> v)
      | _ \<Rightarrow> Inl AttributeError)"

text \<open>
  \<open>score_to_verdict\<close> on whatever the reply holds. A number or a boolean compares with a
  float, anything else raises \<open>TypeError\<close>; \<open>and\<close> and \<open>or\<close> do not look at their
  second operand when the first decides.
\<close>

definition as_number :: "json \<Rightarrow> error + pyfloat" where
  "as_number j =
     (case j of
        JNum x \<Rightarrow> Inr x
      | JBool b \<Rightarrow> Inr (Finite (if b then 1 else 0))
      | _ \<Rightarrow> Inl TypeError)"

definition cmp_ge :: "json \<Rightarrow> pyfloat \<Rightarrow> error + bool" where
  "cmp_ge j t = (case as_number j of Inl e \<Rightarrow> Inl e | Inr x \<Rightarrow> Inr (float_ge x t))"

definition cmp_lt :: "json \<Rightarrow> pyfloat \<Rightarrow> error + bool" where
  "cmp_lt j t = (case as_number j of Inl e \<Rightarrow> Inl e | Inr x \<Rightarrow> Inr (float_lt x t))"

definition both_ge :: "json \<Rightarrow> json \<Rightarrow> pyfloat \<Rightarrow> error + bool" where
  "both_ge r c t =
     (case cmp_ge r t of Inl e \<Rightarrow> Inl e | Inr b \<Rightarrow> if b then cmp_ge c t else Inr False)"

definition either_lt :: "json \<Rightarrow> json \<Rightarrow> pyfloat \<Rightarrow> error + bool" where
  "either_lt r c t =
     (case cmp_lt r t of Inl e \<Rightarrow> Inl e | Inr b \<Rightarrow> if b then Inr True else cmp_lt c t)"

definition score_to_verdict_untyped :: "json \<Rightarrow> json \<Rightarrow> error + string" where
  "score_to_verdict_untyped relevance completeness =
     (case both_ge relevance completeness COMPLIED_THRESHOLD of
        Inl e \<Rightarrow> Inl e
      | Inr complied \<Rightarrow>
          if complied then Inr ''Complied''
          else
            (case either_lt relevance completeness MAJOR_NC_THRESHOLD of
               Inl e \<Rightarrow> Inl e
             | Inr major \<Rightarrow>
                 if major then Inr ''Major NC''
                 else
                   (case both_ge relevance completeness MINOR_NC_THRESHOLD of
                      Inl e \<Rightarrow> Inl e
                    | Inr minor \<Rightarrow>
                        if minor then Inr ''Minor NC''
                        else Inr ''Opportunity for Improvement'')))"

text \<open>
  \<open>str.strip()\<close> removes the whitespace characters at both ends; the characters are those
  \<open>str.isspace\<close> accepts.
\<close>

definition is_space :: "string \<Rightarrow> bool" where
  "is_space ch =
     (let n = codepoint ch in
      (0x09 \<le> n \<and> n \<le> 0x0D) \<or> (0x1C \<le> n \<and> n \<le> 0x20) \<or> n = 0x85 \<or> n = 0xA0
      \<or> n = 0x1680 \<or> (0x2000 \<le> n \<and> n \<le> 0x200A) \<or> n = 0x2028 \<or> n = 0x2029
      \<or> n = 0x202F \<or> n = 0x205F \<or> n = 0x3000)"

definition py_strip :: "string \<Rightarrow> string" where
  "py_strip s = concat (rev (dropWhile is_space (rev (dropWhile is_space (chars s)))))"

text \<open>
  The language-model service is outside the program. Building the messages, the call and
  the parsing of the reply by \<open>safe_load_json\<close> are one parameter \<open>client\<close>, from the clause
  id, the response text and the document context to the parsed reply or an exception.
  Every exception leaves the function as \<open>RuntimeError\<close>. The clause description looked
  up first only enters the messages, and the debugging print is left out. The function
  returns its result and the requests it sent to the service.
\<close>

definition reply_result :: "json \<Rightarrow> error + json \<times> json \<times> json" where
  "reply_result result =
     (case json_get result ''scores'' (JObj []) of
        Inl e \<Rightarrow> Inl e
      | Inr scores \<Rightarrow>
          (case json_get result ''verdict'' JNull of
             Inl e \<Rightarrow> Inl e
           | Inr given \<Rightarrow>
               (case (if truthy given then Inr given
                      else
                        (case json_get scores ''relevance'' (JNum (Finite 0)) of
                           Inl e \<Rightarrow> Inl e
                         | Inr relevance \<Rightarrow>
                             (case json_get scores ''completeness'' (JNum (Finite 0)) of
                                Inl e \<Rightarrow> Inl e
                              | Inr completeness \<Rightarrow>
                                  (case score_to_verdict_untyped relevance completeness of
                                     Inl e \<Rightarrow> Inl e
                                   | Inr v \<Rightarrow> Inr (JStr v))))) of
                  Inl e \<Rightarrow> Inl e
                | Inr v \<Rightarrow>
                    (case json_get result ''feedback'' (JStr []) of
                       Inl e \<Rightarrow> Inl e
                     | Inr feedback \<Rightarrow> Inr (v, scores, feedback)))))"

definition evaluate_open_text_compliance ::
  "(string \<Rightarrow> string \<Rightarrow> string option \<Rightarrow> error + json) \<Rightarrow> string \<Rightarrow> string option \<Rightarrow> string option
     \<Rightarrow> (error + json \<times> json \<times> json) \<times> (string \<times> string \<times> string option) list" where
  "evaluate_open_text_compliance client clause_id user_response document_context =
     (case user_response of
        None \<Rightarrow>
          (Inr (JStr ''Major NC'',
                JObj [(''relevance'', JNum (Finite 0)), (''completeness'', JNum (Finite 0))],
                JStr ''No response provided''), [])
      | Some text \<Rightarrow>
          if text = [] \<or> py_strip text = [] then
            (Inr (JStr ''Major NC'',
                  JObj [(''relevance'', JNum (Finite 0)), (''completeness'', JNum (Finite 0))],
                  JStr ''No response provided''), [])
          else
            let sent = (if py_len text > 4000 then concat (take 4000 (chars text)) @ ''...''
                        else text) in
            (case client clause_id sent document_context of
               Inl e \<Rightarrow> Inl RuntimeError
             | Inr result \<Rightarrow>
                 (case reply_result result of
                    Inl e \<Rightarrow> Inl RuntimeError
                  | Inr triple \<Rightarrow> Inr triple),
             [(clause_id, sent, document_context)]))"

section \<open>Well-formedness of a clause graph\<close>

text \<open>Every step id an option continues to is a step of the clause.\<close>

definition no_dangling :: "clause \<Rightarrow> bool" where
  "no_dangling cl =
     list_all (\<lambda>(sid, st).
       list_all (\<lambda>(lbl, tr). case tr of Continue n \<Rightarrow> n \<in> set (map fst (steps cl)) | Terminal v \<Rightarrow> True)
         (options st)) (steps cl)"

text \<open>
  From step \<open>s\<close>, every choice of options ends in a verdict after at most \<open>n\<close> answers:
  the step exists, it offers an option, and each option is terminal or continues to a
  step from which \<open>n - 1\<close> answers suffice.
\<close>

fun terminal_within :: "clause \<Rightarrow> nat \<Rightarrow> string \<Rightarrow> bool" where
  "terminal_within cl 0 s = False"
| "terminal_within cl (Suc n) s =
     (case map_of (steps cl) s of
        None \<Rightarrow> False
      | Some st \<Rightarrow>
          options st \<noteq> [] \<and>
          list_all (\<lambda>(lbl, tr). case tr of Continue s' \<Rightarrow> terminal_within cl n s' | Terminal v \<Rightarrow> True)
            (options st))"

section \<open>Summaries stated on whole lists\<close>

text \<open>A line of the checklist, and the analyses that get one.\<close>

definition checklist_line :: "(nat \<Rightarrow> bool) \<Rightarrow> (string \<times> pyval) list \<Rightarrow> string" where
  "checklist_line isprintable analysis =
     ''Tinjau dan perbaiki klausul '' @ py_str isprintable (dict_get analysis ''clause'')
       @ '': verdict = '' @ py_str isprintable (dict_get analysis ''verdict'')"

definition not_complied :: "(string \<times> pyval) list \<Rightarrow> bool" where
  "not_complied analysis = (dict_get analysis ''verdict'' \<noteq> PyStr ''Complied'')"

text \<open>The number of recorded verdicts whose primary is the string \<open>k\<close>.\<close>

definition counted :: "string \<Rightarrow> (string \<times> pyval) list \<Rightarrow> nat" where
  "counted k responses = length (filter (\<lambda>(cid, v). primary v = Inr (PyStr k)) responses)"

section \<open>decision_tree.py on a heap\<close>

text \<open>
  Dictionaries and lists are objects on a heap and a value refers to them by address, so
  that a store into one of them is seen wherever it is referred to; strings and \<open>None\<close>
  are immutable and held as values. A program takes the heap and returns a value or an
  exception together with the heap it leaves. The dictionaries here have string keys. An
  address beyond the heap occurs in no Python state; \<open>deref\<close> answers \<open>None\<close> there
  and the operations raise \<open>TypeError\<close>.
\<close>

type_synonym addr = nat

datatype val = VNone | VStr string | VRef addr

datatype obj = DictObj "(string \<times> val) list" | ListObj "val list"

type_synonym heap = "obj list"

type_synonym 'a prog = "heap \<Rightarrow> (error + 'a) \<times> heap"

definition deref :: "heap \<Rightarrow> addr \<Rightarrow> obj option" where
  "deref h a = (if a < length h then Some (h ! a) else None)"

definition ret :: "'a \<Rightarrow> 'a prog" where
  "ret x h = (Inr x, h)"

definition raise :: "error \<Rightarrow> 'a prog" where
  "raise e h = (Inl e, h)"

definition bind_prog :: "'a prog \<Rightarrow> ('a \<Rightarrow> 'b prog) \<Rightarrow> 'b prog" where
  "bind_prog p f h = (case p h of (Inl e, h') \<Rightarrow> (Inl e, h') | (Inr x, h') \<Rightarrow> f x h')"

text \<open>
  \<open>v[k]\<close>, \<open>k in v\<close>, a dictionary or list display, and the store \<open>v[k] = x\<close> (the
  driver's \<open>responses[cid] = ...\<close> is one; \<open>evaluate_answer\<close> has none).
\<close>

definition subscript :: "val \<Rightarrow> string \<Rightarrow> val prog" where
  "subscript v k h =
     (case v of
        VRef a \<Rightarrow>
          (case deref h a of
             Some (DictObj d) \<Rightarrow>
               (case map_of d k of None \<Rightarrow> (Inl KeyError, h) | Some x \<Rightarrow> (Inr x, h))
           | _ \<Rightarrow> (Inl TypeError, h))
      | _ \<Rightarrow> (Inl TypeError, h))"

fun substring :: "string \<Rightarrow> string \<Rightarrow> bool" where
  "substring k [] = (k = [])"
| "substring k (c # s) = (take (length k) (c # s) = k \<or> substring k s)"

definition contains :: "val \<Rightarrow> string \<Rightarrow> bool prog" where
  "contains v k h =
     (case v of
        VNone \<Rightarrow> (Inl TypeError, h)
      | VStr s \<Rightarrow> (Inr (substring k s), h)
      | VRef a \<Rightarrow>
          (case deref h a of
             Some (DictObj d) \<Rightarrow> (Inr (k \<in> set (map fst d)), h)
           | Some (ListObj vs) \<Rightarrow> (Inr (VStr k \<in> set vs), h)
           | None \<Rightarrow> (Inl TypeError, h)))"

definition new_dict :: "(string \<times> val) list \<Rightarrow> val prog" where
  "new_dict d h = (Inr (VRef (length h)), h @ [DictObj d])"

definition new_list :: "val list \<Rightarrow> val prog" where
  "new_list vs h = (Inr (VRef (length h)), h @ [ListObj vs])"

fun dict_set :: "string \<Rightarrow> val \<Rightarrow> (string \<times> val) list \<Rightarrow> (string \<times> val) list" where
  "dict_set k v [] = [(k, v)]"
| "dict_set k v ((k', v') # d) = (if k' = k then (k, v) # d else (k', v') # dict_set k v d)"

definition setitem :: "val \<Rightarrow> string \<Rightarrow> val \<Rightarrow> unit prog" where
  "setitem v k x h =
     (case v of
        VRef a \<Rightarrow>
          (case deref h a of
             Some (DictObj d) \<Rightarrow> (Inr (), h[a := DictObj (dict_set k x d)])
           | _ \<Rightarrow> (Inl TypeError, h))
      | _ \<Rightarrow> (Inl TypeError, h))"

text \<open>
  The body of \<open>evaluate_answer\<close>, statement by statement; \<open>trees\<close> is the value of the
  module's name \<open>decision_trees\<close>.
\<close>

definition evaluate_answer_heap :: "val \<Rightarrow> string \<Rightarrow> string \<Rightarrow> string \<Rightarrow> val prog" where
  "evaluate_answer_heap trees clause_id step_id answer =
     bind_prog (subscript trees clause_id) (\<lambda>tree.
     bind_prog (subscript tree ''steps'') (\<lambda>all_steps.
     bind_prog (subscript all_steps step_id) (\<lambda>st.
     bind_prog (subscript st ''options'') (\<lambda>opts.
     bind_prog (contains opts answer) (\<lambda>present.
       if \<not> present then raise ValueError
       else
         bind_prog (subscript opts answer) (\<lambda>target.
           case target of
             VStr s \<Rightarrow> ret target
           | _ \<Rightarrow>
               bind_prog (subscript target ''verdict'') (\<lambda>v.
                 new_dict [(''verdict'', v)])))))))"

text \<open>
  The assignment \<open>decision_trees = {...}\<close> at import builds the nested dictionaries, the
  inner ones first, and binds the name to the outermost.
\<close>

fun alloc_entries :: "('a \<Rightarrow> val prog) \<Rightarrow> (string \<times> 'a) list \<Rightarrow> (string \<times> val) list prog" where
  "alloc_entries f [] = ret []"
| "alloc_entries f ((k, x) # rest) =
     bind_prog (f x) (\<lambda>v. bind_prog (alloc_entries f rest) (\<lambda>vs. ret ((k, v) # vs)))"

definition alloc_verdict :: "pyval \<Rightarrow> val prog" where
  "alloc_verdict pv =
     (case pv of PyNone \<Rightarrow> ret VNone | PyStr s \<Rightarrow> ret (VStr s) | PyList xs \<Rightarrow> new_list (map VStr xs))"

definition alloc_transition :: "transition \<Rightarrow> val prog" where
  "alloc_transition tr =
     (case tr of
        Continue s \<Rightarrow> ret (VStr s)
      | Terminal pv \<Rightarrow> bind_prog (alloc_verdict pv) (\<lambda>v. new_dict [(''verdict'', v)]))"

definition alloc_step :: "step \<Rightarrow> val prog" where
  "alloc_step st =
     bind_prog (alloc_entries alloc_transition (options st)) (\<lambda>od.
     bind_prog (new_dict od) (\<lambda>ov.
       new_dict [(''question'', VStr (question st)), (''options'', ov)]))"

definition alloc_clause :: "clause \<Rightarrow> val prog" where
  "alloc_clause cl =
     bind_prog (alloc_entries alloc_step (steps cl)) (\<lambda>sd.
     bind_prog (new_dict sd) (\<lambda>sv.
       new_dict [(''title'', VStr (title cl)), (''steps'', sv)]))"

definition alloc_graph :: "(string \<times> clause) list \<Rightarrow> val prog" where
  "alloc_graph g = bind_prog (alloc_entries alloc_clause g) new_dict"

definition module_heap :: heap where
  "module_heap = snd (alloc_graph decision_trees [])"

definition module_trees :: val where
  "module_trees = (case fst (alloc_graph decision_trees []) of Inr v \<Rightarrow> v | Inl e \<Rightarrow> VNone)"

text \<open>
  Reading the heap back: the dictionary a value refers to, and the verdict, transition,
  step, clause and graph it stands for, when it has that shape.
\<close>

definition read_dict :: "heap \<Rightarrow> val \<Rightarrow> (string \<times> val) list option" where
  "read_dict h v =
     (case v of
        VRef a \<Rightarrow> (case deref h a of Some (DictObj d) \<Rightarrow> Some d | _ \<Rightarrow> None)
      | _ \<Rightarrow> None)"

definition read_str :: "val \<Rightarrow> string option" where
  "read_str v = (case v of VStr s \<Rightarrow> Some s | _ \<Rightarrow> None)"

definition read_entries :: "(val \<Rightarrow> 'a option) \<Rightarrow> (string \<times> val) list \<Rightarrow> (string \<times> 'a) list option" where
  "read_entries f d = those (map (\<lambda>(k, x). map_option (Pair k) (f x)) d)"

definition read_verdict :: "heap \<Rightarrow> val \<Rightarrow> pyval option" where
  "read_verdict h v =
     (case v of
        VNone \<Rightarrow> Some PyNone
      | VStr s \<Rightarrow> Some (PyStr s)
      | VRef a \<Rightarrow>
          (case deref h a of
             Some (ListObj vs) \<Rightarrow> map_option PyList (those (map read_str vs))
           | _ \<Rightarrow> None))"

definition read_verdict_dict :: "heap \<Rightarrow> val \<Rightarrow> pyval option" where
  "read_verdict_dict h v =
     (case read_dict h v of
        Some [(k, x)] \<Rightarrow> if k = ''verdict'' then read_verdict h x else None
      | _ \<Rightarrow> None)"

definition read_transition :: "heap \<Rightarrow> val \<Rightarrow> transition option" where
  "read_transition h v =
     (case v of
        VStr s \<Rightarrow> Some (Continue s)
      | _ \<Rightarrow> map_option Terminal (read_verdict_dict h v))"

definition read_step :: "heap \<Rightarrow> val \<Rightarrow> step option" where
  "read_step h v =
     (case read_dict h v of
        Some [(k1, VStr q), (k2, ov)] \<Rightarrow>
          if k1 = ''question'' \<and> k2 = ''options'' then
            (case read_dict h ov of
               Some od \<Rightarrow>
                 map_option (\<lambda>opts. \<lparr>question = q, options = opts\<rparr>)
                   (read_entries (read_transition h) od)
             | None \<Rightarrow> None)
          else None
      | _ \<Rightarrow> None)"

definition read_clause :: "heap \<Rightarrow> val \<Rightarrow> clause option" where
  "read_clause h v =
     (case read_dict h v of
        Some [(k1, VStr t), (k2, sv)] \<Rightarrow>
          if k1 = ''title'' \<and> k2 = ''steps'' then
            (case read_dict h sv of
               Some sd \<Rightarrow>
                 map_option (\<lambda>ss. \<lparr>title = t, steps = ss\<rparr>) (read_entries (read_step h) sd)
             | None \<Rightarrow> None)
          else None
      | _ \<Rightarrow> None)"

definition read_graph :: "heap \<Rightarrow> val \<Rightarrow> (string \<times> clause) list option" where
  "read_graph h v =
     (case read_dict h v of Some d \<Rightarrow> read_entries (read_clause h) d | None \<Rightarrow> None)"

text \<open>What a result of \<open>evaluate_answer_heap\<close> stands for.\<close>

definition read_result :: "heap \<Rightarrow> error + val \<Rightarrow> (error + answer_result) option" where
  "read_result h r =
     (case r of
        Inl e \<Rightarrow> Some (Inl e)
      | Inr v \<Rightarrow>
          (case v of
             VStr s \<Rightarrow> Some (Inr (NextStep s))
           | _ \<Rightarrow> map_option (\<lambda>pv. Inr (Verdict pv)) (read_verdict_dict h v)))"

section \<open>Properties of the scoring fallback\<close>

text \<open>
  Each constant is a multiple of \<open>2^-53\<close> less than half a step (\<open>2^-54\<close>) away from
  its decimal literal, hence the binary64 value the literal denotes.
\<close>

lemma float_literals_nearest:
  "float_0_6 = Finite (5404319552844595 / 2 ^ 53) \<and> \<bar>5404319552844595 / 2 ^ 53 - 6 / 10\<bar> < (1 / 2 ^ 54 :: real)"
  "float_0_7 = Finite (6305039478318694 / 2 ^ 53) \<and> \<bar>6305039478318694 / 2 ^ 53 - 7 / 10\<bar> < (1 / 2 ^ 54 :: real)"
  "float_0_85 = Finite (7656119366529843 / 2 ^ 53) \<and> \<bar>7656119366529843 / 2 ^ 53 - 85 / 100\<bar> < (1 / 2 ^ 54 :: real)"
  "float_0_95 = Finite (8556839292003942 / 2 ^ 53) \<and> \<bar>8556839292003942 / 2 ^ 53 - 95 / 100\<bar> < (1 / 2 ^ 54 :: real)"
  by (simp_all add: float_0_6_def float_0_7_def float_0_85_def float_0_95_def)

text \<open>
  C1. \<open>score_to_verdict\<close> returns a verdict for every pair of floats, finite or not and
  inside \<open>[0, 1]\<close> or not: Complied exactly when both scores are at least 0.85; Major NC
  exactly when that fails and one score is below 0.6; Minor NC exactly when both fail and
  both scores are at least 0.7; Opportunity for Improvement in every remaining case.
\<close>

theorem score_to_verdict_precedence:
  "(score_to_verdict r c = ''Complied'' \<longleftrightarrow>
      float_ge r COMPLIED_THRESHOLD \<and> float_ge c COMPLIED_THRESHOLD)
   \<and> (score_to_verdict r c = ''Major NC'' \<longleftrightarrow>
      \<not> (float_ge r COMPLIED_THRESHOLD \<and> float_ge c COMPLIED_THRESHOLD)
      \<and> (float_lt r MAJOR_NC_THRESHOLD \<or> float_lt c MAJOR_NC_THRESHOLD))
   \<and> (score_to_verdict r c = ''Minor NC'' \<longleftrightarrow>
      \<not> (float_ge r COMPLIED_THRESHOLD \<and> float_ge c COMPLIED_THRESHOLD)
      \<and> \<not> (float_lt r MAJOR_NC_THRESHOLD \<or> float_lt c MAJOR_NC_THRESHOLD)
      \<and> float_ge r MINOR_NC_THRESHOLD \<and> float_ge c MINOR_NC_THRESHOLD)
   \<and> (score_to_verdict r c = ''Opportunity for Improvement'' \<longleftrightarrow>
      \<not> (float_ge r COMPLIED_THRESHOLD \<and> float_ge c COMPLIED_THRESHOLD)
      \<and> \<not> (float_lt r MAJOR_NC_THRESHOLD \<or> float_lt c MAJOR_NC_THRESHOLD)
      \<and> \<not> (float_ge r MINOR_NC_THRESHOLD \<and> float_ge c MINOR_NC_THRESHOLD))
   \<and> score_to_verdict r c \<in>
      {''Complied'', ''Major NC'', ''Minor NC'', ''Opportunity for Improvement''}"
  unfolding score_to_verdict_def by simp

theorem score_to_verdict_precedence_witness:
  "score_to_verdict (Finite 2) (Finite 5) = ''Complied''
   \<and> score_to_verdict (Finite (- 1)) PosInf = ''Major NC''
   \<and> score_to_verdict (Finite (3 / 4)) (Finite (3 / 4)) = ''Minor NC''
   \<and> score_to_verdict NaN (Finite (1 / 2)) = ''Major NC''
   \<and> score_to_verdict NaN NaN = ''Opportunity for Improvement''"
  using score_to_verdict_precedence [of "Finite 2" "Finite 5"]
    score_to_verdict_precedence [of "Finite (- 1)" PosInf]
    score_to_verdict_precedence [of "Finite (3 / 4)" "Finite (3 / 4)"]
    score_to_verdict_precedence [of NaN "Finite (1 / 2)"]
    score_to_verdict_precedence [of NaN NaN]
  by (simp add: COMPLIED_THRESHOLD_def MINOR_NC_THRESHOLD_def MAJOR_NC_THRESHOLD_def
      float_0_6_def float_0_7_def float_0_85_def)

text \<open>
  C4, as the code has it. The two boundary vectors give the opposite verdicts:
  \<open>score_to_verdict(0.7, 0.95)\<close> is Minor NC (both scores reach 0.7, the first is below
  0.85), and \<open>score_to_verdict(0.6, 0.6)\<close> is Opportunity for Improvement (neither score is
  below 0.6, neither reaches 0.7).
\<close>

theorem score_to_verdict_boundary_vectors:
  "score_to_verdict float_0_7 float_0_95 = ''Minor NC''
   \<and> score_to_verdict float_0_6 float_0_6 = ''Opportunity for Improvement''"
  by (simp add: score_to_verdict_def COMPLIED_THRESHOLD_def MINOR_NC_THRESHOLD_def
      MAJOR_NC_THRESHOLD_def float_0_6_def float_0_7_def float_0_85_def float_0_95_def)

text \<open>
  C4, as the specification states it, fails: the first vector does not give Opportunity
  for Improvement and the second does not give Minor NC.
\<close>

theorem score_to_verdict_boundary_vectors_counterexample:
  "score_to_verdict float_0_7 float_0_95 \<noteq> ''Opportunity for Improvement''
   \<and> score_to_verdict float_0_6 float_0_6 \<noteq> ''Minor NC''"
  by (simp add: score_to_verdict_def COMPLIED_THRESHOLD_def MINOR_NC_THRESHOLD_def
      MAJOR_NC_THRESHOLD_def float_0_6_def float_0_7_def float_0_85_def float_0_95_def)

section \<open>Properties of the traversal engine\<close>

lemma known_clauses:
  "map_of decision_trees cid = Some cl \<Longrightarrow>
     cl = clause_4_1 \<or> cl = clause_4_2 \<or> cl = clause_4_3 \<or> cl = clause_4_4"
  by (auto simp: decision_trees_def split: if_splits)

lemma evaluate_answer_unfold:
  "evaluate_answer cid s a =
     (case map_of decision_trees cid of
        None \<Rightarrow> Inl KeyError
      | Some cl \<Rightarrow>
          (case map_of (steps cl) s of
             None \<Rightarrow> Inl KeyError
           | Some st \<Rightarrow>
               (case map_of (options st) a of
                  None \<Rightarrow> Inl ValueError
                | Some (Continue t) \<Rightarrow> Inr (NextStep t)
                | Some (Terminal v) \<Rightarrow> Inr (Verdict v))))"
  by (simp add: evaluate_answer_def evaluate_answer_on_def options_of_def
      split: option.splits transition.splits)

lemma get_options_unfold:
  "get_options cid s =
     (case map_of decision_trees cid of
        None \<Rightarrow> Inl KeyError
      | Some cl \<Rightarrow>
          (case map_of (steps cl) s of
             None \<Rightarrow> Inl KeyError
           | Some st \<Rightarrow> Inr (map fst (options st))))"
  by (simp add: get_options_def options_of_def split: option.splits)

lemma map_of_None_iff: "map_of xs k = None \<longleftrightarrow> k \<notin> set (map fst xs)"
  by (simp add: map_of_eq_None_iff)

text \<open>
  C2. For an existing clause id and step id, \<open>evaluate_answer\<close> returns a result exactly
  when the answer is, character for character, one of the labels of \<open>get_options\<close>, and
  raises \<open>ValueError\<close> (the invalid-answer error) for every other string. For an unknown
  clause id or step id it raises \<open>KeyError\<close> (the not-found error).
\<close>

theorem evaluate_answer_accepts_exactly_options:
  "(\<forall>cl. map_of decision_trees c = Some cl \<and> s \<in> set (map fst (steps cl)) \<longrightarrow>
      (\<exists>opts. get_options c s = Inr opts
         \<and> ((\<exists>r. evaluate_answer c s a = Inr r) \<longleftrightarrow> a \<in> set opts)
         \<and> (a \<notin> set opts \<longrightarrow> evaluate_answer c s a = Inl ValueError)))
   \<and> ((\<forall>cl. map_of decision_trees c = Some cl \<longrightarrow> s \<notin> set (map fst (steps cl))) \<longrightarrow>
         evaluate_answer c s a = Inl KeyError)"
proof (intro conjI allI impI)
  fix cl
  assume known: "map_of decision_trees c = Some cl \<and> s \<in> set (map fst (steps cl))"
  then obtain st where st: "map_of (steps cl) s = Some st"
    by (cases "map_of (steps cl) s") (auto simp: map_of_None_iff)
  have opts: "get_options c s = Inr (map fst (options st))"
    using known st by (simp add: get_options_unfold)
  show "\<exists>opts. get_options c s = Inr opts
         \<and> ((\<exists>r. evaluate_answer c s a = Inr r) \<longleftrightarrow> a \<in> set opts)
         \<and> (a \<notin> set opts \<longrightarrow> evaluate_answer c s a = Inl ValueError)"
  proof (cases "map_of (options st) a")
    case None
    then have "a \<notin> set (map fst (options st))" by (simp add: map_of_None_iff)
    moreover have "evaluate_answer c s a = Inl ValueError"
      using known st None by (simp add: evaluate_answer_unfold)
    ultimately show ?thesis using opts by simp
  next
    case (Some tr)
    then have "a \<in> set (map fst (options st))"
      by (metis map_of_None_iff option.distinct(1))
    moreover have "\<exists>r. evaluate_answer c s a = Inr r"
      using known st Some by (cases tr) (simp_all add: evaluate_answer_unfold)
    ultimately show ?thesis using opts by simp
  qed
next
  assume unknown: "\<forall>cl. map_of decision_trees c = Some cl \<longrightarrow> s \<notin> set (map fst (steps cl))"
  show "evaluate_answer c s a = Inl KeyError"
  proof (cases "map_of decision_trees c")
    case None
    then show ?thesis by (simp add: evaluate_answer_unfold)
  next
    case (Some cl)
    with unknown have "map_of (steps cl) s = None" by (simp add: map_of_None_iff)
    with Some show ?thesis by (simp add: evaluate_answer_unfold)
  qed
qed

theorem evaluate_answer_accepts_exactly_options_witness:
  "evaluate_answer ''4.1'' ''1'' ''Yes'' = Inr (NextStep ''2'')
   \<and> evaluate_answer ''4.1'' ''1'' ''yes'' = Inl ValueError
   \<and> evaluate_answer ''4.1'' ''1'' ''Yes '' = Inl ValueError
   \<and> evaluate_answer ''4.1'' ''6'' ''Yes'' = Inl KeyError
   \<and> evaluate_answer ''4.5'' ''1'' ''Yes'' = Inl KeyError"
  using evaluate_answer_accepts_exactly_options [of "''4.1''" "''1''" "''Yes''"]
    evaluate_answer_accepts_exactly_options [of "''4.1''" "''1''" "''yes''"]
    evaluate_answer_accepts_exactly_options [of "''4.1''" "''1''" "''Yes ''"]
    evaluate_answer_accepts_exactly_options [of "''4.1''" "''6''" "''Yes''"]
    evaluate_answer_accepts_exactly_options [of "''4.5''" "''1''" "''Yes''"]
  by (simp add: evaluate_answer_unfold get_options_unfold decision_trees_def clause_4_1_def)

section \<open>Properties of evaluate_answer on the heap\<close>

lemma deref_append: "deref h a = Some ob \<Longrightarrow> deref (h @ ext) a = Some ob"
  by (simp add: deref_def nth_append split: if_splits)

lemma read_dictD:
  "read_dict h v = Some d \<Longrightarrow> \<exists>a. v = VRef a \<and> deref h a = Some (DictObj d)"
  by (auto simp: read_dict_def split: val.splits option.splits obj.splits)

lemma read_dict_append:
  assumes "read_dict h v = Some d"
  shows "read_dict (h @ ext) v = Some d"
proof -
  from read_dictD [OF assms] obtain a where "v = VRef a" "deref h a = Some (DictObj d)" by blast
  then show ?thesis by (simp add: read_dict_def deref_append)
qed

lemma read_verdict_append:
  assumes "read_verdict h v = Some pv"
  shows "read_verdict (h @ ext) v = Some pv"
proof (cases v)
  case VNone
  with assms show ?thesis by (simp add: read_verdict_def)
next
  case (VStr t)
  with assms show ?thesis by (simp add: read_verdict_def)
next
  case (VRef a)
  with assms obtain vs where vs: "deref h a = Some (ListObj vs)"
    and pv: "map_option PyList (those (map read_str vs)) = Some pv"
    by (auto simp: read_verdict_def split: option.splits obj.splits)
  from deref_append [OF vs] pv VRef show ?thesis by (simp add: read_verdict_def)
qed

lemma read_entries_Cons:
  "read_entries f ((k, x) # d) =
     (case f x of None \<Rightarrow> None | Some y \<Rightarrow> map_option (Cons (k, y)) (read_entries f d))"
  by (simp add: read_entries_def split: option.splits)

lemma read_entries_Nil: "read_entries f [] = Some []"
  by (simp add: read_entries_def)

lemma read_entries_lookup:
  "read_entries f d = Some xs \<Longrightarrow>
     (case map_of d k of
        None \<Rightarrow> map_of xs k = None
      | Some x \<Rightarrow> \<exists>y. f x = Some y \<and> map_of xs k = Some y)"
proof (induction d arbitrary: xs)
  case Nil
  then show ?case by (simp add: read_entries_Nil)
next
  case (Cons p d)
  obtain k' x where p: "p = (k', x)" by (cases p)
  from Cons.prems p obtain y ys where y: "f x = Some y" and ys: "read_entries f d = Some ys"
    and xs: "xs = (k', y) # ys"
    by (auto simp: read_entries_Cons split: option.splits)
  from Cons.IH [OF ys] show ?case using p y xs by (auto split: option.splits)
qed

lemma read_entries_keys: "read_entries f d = Some xs \<Longrightarrow> map fst xs = map fst d"
proof (induction d arbitrary: xs)
  case Nil
  then show ?case by (simp add: read_entries_Nil)
next
  case (Cons p d)
  obtain k' x where p: "p = (k', x)" by (cases p)
  from Cons.prems p obtain y ys where "read_entries f d = Some ys" "xs = (k', y) # ys"
    by (auto simp: read_entries_Cons split: option.splits)
  with Cons.IH p show ?case by simp
qed

lemma read_entries_mono:
  assumes "\<And>x y. f x = Some y \<Longrightarrow> f' x = Some y"
  shows "read_entries f d = Some xs \<Longrightarrow> read_entries f' d = Some xs"
proof (induction d arbitrary: xs)
  case Nil
  then show ?case by (simp add: read_entries_Nil)
next
  case (Cons p d)
  obtain k' x where p: "p = (k', x)" by (cases p)
  from Cons.prems p obtain y ys where y: "f x = Some y" and ys: "read_entries f d = Some ys"
    and xs: "xs = (k', y) # ys"
    by (auto simp: read_entries_Cons split: option.splits)
  from assms [OF y] Cons.IH [OF ys] p xs show ?case by (simp add: read_entries_Cons)
qed

lemma read_verdict_dictD:
  "read_verdict_dict h v = Some pv \<Longrightarrow>
     \<exists>x. read_dict h v = Some [(''verdict'', x)] \<and> read_verdict h x = Some pv"
  by (auto simp: read_verdict_dict_def split: option.splits list.splits prod.splits if_splits)

lemma read_verdict_dict_append:
  assumes "read_verdict_dict h v = Some pv"
  shows "read_verdict_dict (h @ ext) v = Some pv"
proof -
  from read_verdict_dictD [OF assms] obtain x where
    v: "read_dict h v = Some [(''verdict'', x)]" and x: "read_verdict h x = Some pv"
    by blast
  then show ?thesis
    by (simp add: read_verdict_dict_def read_dict_append [OF v] read_verdict_append [OF x])
qed

lemma read_transition_append:
  "read_transition h v = Some tr \<Longrightarrow> read_transition (h @ ext) v = Some tr"
  by (auto simp: read_transition_def read_verdict_dict_append split: val.splits)

lemma read_stepD:
  "read_step h v = Some st \<Longrightarrow>
     \<exists>ov od. read_dict h v = Some [(''question'', VStr (question st)), (''options'', ov)]
       \<and> read_dict h ov = Some od
       \<and> read_entries (read_transition h) od = Some (options st)"
  by (auto simp: read_step_def split: option.splits list.splits prod.splits val.splits if_splits)

lemma read_step_append:
  assumes "read_step h v = Some st"
  shows "read_step (h @ ext) v = Some st"
proof -
  from read_stepD [OF assms] obtain ov od where
    v: "read_dict h v = Some [(''question'', VStr (question st)), (''options'', ov)]"
    and ov: "read_dict h ov = Some od"
    and od: "read_entries (read_transition h) od = Some (options st)"
    by blast
  have "read_entries (read_transition (h @ ext)) od = Some (options st)"
    using od by (rule read_entries_mono [rotated]) (rule read_transition_append)
  then show ?thesis
    by (simp add: read_step_def read_dict_append [OF v] read_dict_append [OF ov])
qed

lemma read_clauseD:
  "read_clause h v = Some cl \<Longrightarrow>
     \<exists>sv sd. read_dict h v = Some [(''title'', VStr (title cl)), (''steps'', sv)]
       \<and> read_dict h sv = Some sd
       \<and> read_entries (read_step h) sd = Some (steps cl)"
  by (auto simp: read_clause_def split: option.splits list.splits prod.splits val.splits if_splits)

lemma read_clause_append:
  assumes "read_clause h v = Some cl"
  shows "read_clause (h @ ext) v = Some cl"
proof -
  from read_clauseD [OF assms] obtain sv sd where
    v: "read_dict h v = Some [(''title'', VStr (title cl)), (''steps'', sv)]"
    and sv: "read_dict h sv = Some sd"
    and sd: "read_entries (read_step h) sd = Some (steps cl)"
    by blast
  have "read_entries (read_step (h @ ext)) sd = Some (steps cl)"
    using sd by (rule read_entries_mono [rotated]) (rule read_step_append)
  then show ?thesis
    by (simp add: read_clause_def read_dict_append [OF v] read_dict_append [OF sv])
qed

lemma read_graph_append:
  assumes "read_graph h v = Some g"
  shows "read_graph (h @ ext) v = Some g"
proof -
  from assms obtain d where d: "read_dict h v = Some d"
    and g: "read_entries (read_clause h) d = Some g"
    by (auto simp: read_graph_def split: option.splits)
  have "read_entries (read_clause (h @ ext)) d = Some g"
    using g by (rule read_entries_mono [rotated]) (rule read_clause_append)
  then show ?thesis by (simp add: read_graph_def read_dict_append [OF d])
qed

lemma subscript_dict:
  "read_dict h v = Some d \<Longrightarrow>
     subscript v k h = (case map_of d k of None \<Rightarrow> (Inl KeyError, h) | Some x \<Rightarrow> (Inr x, h))"
  by (auto simp: read_dict_def subscript_def split: val.splits option.splits obj.splits)

lemma contains_dict:
  "read_dict h v = Some d \<Longrightarrow> contains v k h = (Inr (k \<in> set (map fst d)), h)"
  by (auto simp: read_dict_def contains_def split: val.splits option.splits obj.splits)

lemma evaluate_answer_heap_refines:
  assumes "read_graph h trees = Some g"
  shows "\<exists>r ext. evaluate_answer_heap trees c s a h = (r, h @ ext)
           \<and> read_result (h @ ext) r = Some (evaluate_answer_on g c s a)"
proof -
  from assms obtain d where d: "read_dict h trees = Some d"
    and g: "read_entries (read_clause h) d = Some g"
    by (auto simp: read_graph_def split: option.splits)
  note sub1 = subscript_dict [OF d]
  show ?thesis
  proof (cases "map_of d c")
    case None
    with read_entries_lookup [OF g, of c] have "map_of g c = None" by simp
    then have "evaluate_answer_on g c s a = Inl KeyError"
      by (simp add: evaluate_answer_on_def options_of_def)
    moreover have "evaluate_answer_heap trees c s a h = (Inl KeyError, h @ [])"
      using None by (simp add: evaluate_answer_heap_def bind_prog_def sub1)
    ultimately show ?thesis by (force simp: read_result_def)
  next
    case tv: (Some tv)
    with read_entries_lookup [OF g, of c] obtain cl where
      cl: "read_clause h tv = Some cl" and gc: "map_of g c = Some cl" by auto
    from read_clauseD [OF cl] obtain sv sd where
      tvd: "read_dict h tv = Some [(''title'', VStr (title cl)), (''steps'', sv)]"
      and sv: "read_dict h sv = Some sd"
      and sd: "read_entries (read_step h) sd = Some (steps cl)"
      by blast
    have sub2: "subscript tv ''steps'' h = (Inr sv, h)"
      by (simp add: subscript_dict [OF tvd])
    note sub3 = subscript_dict [OF sv]
    show ?thesis
    proof (cases "map_of sd s")
      case None
      with read_entries_lookup [OF sd, of s] have "map_of (steps cl) s = None" by simp
      then have "evaluate_answer_on g c s a = Inl KeyError"
        using gc by (simp add: evaluate_answer_on_def options_of_def)
      moreover have "evaluate_answer_heap trees c s a h = (Inl KeyError, h @ [])"
        using tv None by (simp add: evaluate_answer_heap_def bind_prog_def sub1 sub2 sub3)
      ultimately show ?thesis by (force simp: read_result_def)
    next
      case stv: (Some stv)
      with read_entries_lookup [OF sd, of s] obtain st where
        st: "read_step h stv = Some st" and cs: "map_of (steps cl) s = Some st" by auto
      from read_stepD [OF st] obtain ov od where
        stvd: "read_dict h stv = Some [(''question'', VStr (question st)), (''options'', ov)]"
        and ov: "read_dict h ov = Some od"
        and od: "read_entries (read_transition h) od = Some (options st)"
        by blast
      have sub4: "subscript stv ''options'' h = (Inr ov, h)"
        by (simp add: subscript_dict [OF stvd])
      note sub5 = subscript_dict [OF ov]
      note cont = contains_dict [OF ov]
      have pure: "evaluate_answer_on g c s a =
          (case map_of (options st) a of
             None \<Rightarrow> Inl ValueError
           | Some (Continue t) \<Rightarrow> Inr (NextStep t)
           | Some (Terminal v) \<Rightarrow> Inr (Verdict v))"
        using gc cs
        by (simp add: evaluate_answer_on_def options_of_def split: option.splits transition.splits)
      show ?thesis
      proof (cases "map_of od a")
        case None
        then have absent: "a \<notin> set (map fst od)" by (simp add: map_of_eq_None_iff)
        from None read_entries_lookup [OF od, of a] have "map_of (options st) a = None" by simp
        with pure have "evaluate_answer_on g c s a = Inl ValueError" by simp
        moreover have "evaluate_answer_heap trees c s a h = (Inl ValueError, h @ [])"
          using tv stv absent
          by (simp add: evaluate_answer_heap_def bind_prog_def sub1 sub2 sub3 sub4 cont raise_def)
        ultimately show ?thesis by (force simp: read_result_def)
      next
        case tgt: (Some tgt)
        then have present: "a \<in> set (map fst od)"
          by (metis map_of_eq_None_iff option.distinct(1) set_map)
        from tgt read_entries_lookup [OF od, of a] obtain tr where
          tr: "read_transition h tgt = Some tr" and oa: "map_of (options st) a = Some tr" by auto
        show ?thesis
        proof (cases "\<exists>t. tgt = VStr t")
          case True
          then obtain t where t: "tgt = VStr t" ..
          with tr have "tr = Continue t" by (simp add: read_transition_def)
          with pure oa have "evaluate_answer_on g c s a = Inr (NextStep t)" by simp
          moreover have "evaluate_answer_heap trees c s a h = (Inr (VStr t), h @ [])"
            using tv stv present tgt t
            by (simp add: evaluate_answer_heap_def bind_prog_def sub1 sub2 sub3 sub4 sub5 cont ret_def)
          ultimately show ?thesis by (force simp: read_result_def)
        next
          case False
          with tr obtain pv where pv: "read_verdict_dict h tgt = Some pv" and trpv: "tr = Terminal pv"
            by (auto simp: read_transition_def split: val.splits)
          from read_verdict_dictD [OF pv] obtain x where
            tgtd: "read_dict h tgt = Some [(''verdict'', x)]" and x: "read_verdict h x = Some pv"
            by blast
          from read_dictD [OF tgtd] obtain b where b: "tgt = VRef b" by blast
          have sub6: "subscript (VRef b) ''verdict'' h = (Inr x, h)"
            using subscript_dict [OF tgtd] b by simp
          from pure oa trpv have "evaluate_answer_on g c s a = Inr (Verdict pv)" by simp
          moreover have run: "evaluate_answer_heap trees c s a h =
              (Inr (VRef (length h)), h @ [DictObj [(''verdict'', x)]])"
            using tv stv present tgt b
            by (simp add: evaluate_answer_heap_def bind_prog_def sub1 sub2 sub3 sub4 sub5 sub6 cont
                new_dict_def)
          moreover have "read_result (h @ [DictObj [(''verdict'', x)]]) (Inr (VRef (length h)))
              = Some (Inr (Verdict pv))"
            using read_verdict_append [OF x, of "[DictObj [(''verdict'', x)]]"]
            by (simp add: read_result_def read_verdict_dict_def read_dict_def deref_def)
          ultimately show ?thesis by metis
        qed
      qed
    qed
  qed
qed


lemma those_read_str: "those (map (read_str \<circ> VStr) xs) = Some xs"
  by (induction xs) (simp_all add: read_str_def)

lemma alloc_verdict_reads:
  "\<exists>v ext. alloc_verdict pv h = (Inr v, h @ ext) \<and> read_verdict (h @ ext) v = Some pv"
proof (cases pv)
  case PyNone
  then have "alloc_verdict pv h = (Inr VNone, h @ [])" by (simp add: alloc_verdict_def ret_def)
  moreover have "read_verdict (h @ []) VNone = Some pv" using PyNone by (simp add: read_verdict_def)
  ultimately show ?thesis by blast
next
  case (PyStr t)
  then have "alloc_verdict pv h = (Inr (VStr t), h @ [])" by (simp add: alloc_verdict_def ret_def)
  moreover have "read_verdict (h @ []) (VStr t) = Some pv" using PyStr by (simp add: read_verdict_def)
  ultimately show ?thesis by blast
next
  case (PyList xs)
  then have "alloc_verdict pv h = (Inr (VRef (length h)), h @ [ListObj (map VStr xs)])"
    by (simp add: alloc_verdict_def new_list_def)
  moreover have "read_verdict (h @ [ListObj (map VStr xs)]) (VRef (length h)) = Some pv"
    using PyList by (simp add: read_verdict_def deref_def those_read_str)
  ultimately show ?thesis by blast
qed

lemma alloc_transition_reads:
  "\<exists>v ext. alloc_transition tr h = (Inr v, h @ ext) \<and> read_transition (h @ ext) v = Some tr"
proof (cases tr)
  case (Continue t)
  then have "alloc_transition tr h = (Inr (VStr t), h @ [])"
    by (simp add: alloc_transition_def ret_def)
  moreover have "read_transition (h @ []) (VStr t) = Some tr"
    using Continue by (simp add: read_transition_def)
  ultimately show ?thesis by blast
next
  case (Terminal pv)
  from alloc_verdict_reads [of pv h] obtain x e where
    x: "alloc_verdict pv h = (Inr x, h @ e)" and rx: "read_verdict (h @ e) x = Some pv" by blast
  let ?h' = "h @ e @ [DictObj [(''verdict'', x)]]"
  have "alloc_transition tr h = (Inr (VRef (length (h @ e))), ?h')"
    using Terminal x by (simp add: alloc_transition_def bind_prog_def new_dict_def)
  moreover have "read_verdict ?h' x = Some pv"
    using read_verdict_append [OF rx, of "[DictObj [(''verdict'', x)]]"] by simp
  then have "read_transition ?h' (VRef (length (h @ e))) = Some tr"
    using Terminal
    by (simp add: read_transition_def read_verdict_dict_def read_dict_def deref_def nth_append)
  ultimately show ?thesis by blast
qed

lemma alloc_entries_reads:
  assumes alloc: "\<And>x h. \<exists>v ext. f x h = (Inr v, h @ ext) \<and> rd (h @ ext) v = Some x"
    and mono: "\<And>h ext v x. rd h v = Some x \<Longrightarrow> rd (h @ ext) v = Some x"
  shows "\<exists>vs ext. alloc_entries f xs h = (Inr vs, h @ ext)
           \<and> read_entries (rd (h @ ext)) vs = Some xs"
proof (induction xs arbitrary: h)
  case Nil
  have "alloc_entries f [] h = (Inr [], h @ [])" by (simp add: ret_def)
  moreover have "read_entries (rd (h @ [])) [] = Some []" by (simp add: read_entries_Nil)
  ultimately show ?case by blast
next
  case (Cons p xs)
  obtain k x where p: "p = (k, x)" by (cases p)
  from alloc [of x h] obtain v e1 where
    v: "f x h = (Inr v, h @ e1)" and rv: "rd (h @ e1) v = Some x" by blast
  from Cons.IH [of "h @ e1"] obtain vs e2 where
    vs: "alloc_entries f xs (h @ e1) = (Inr vs, (h @ e1) @ e2)"
    and rvs: "read_entries (rd ((h @ e1) @ e2)) vs = Some xs" by blast
  have "alloc_entries f (p # xs) h = (Inr ((k, v) # vs), h @ (e1 @ e2))"
    using p v vs by (simp add: bind_prog_def ret_def)
  moreover have "read_entries (rd (h @ (e1 @ e2))) ((k, v) # vs) = Some (p # xs)"
    using mono [OF rv, of e2] rvs p by (simp add: read_entries_Cons)
  ultimately show ?case by blast
qed

lemma alloc_step_reads:
  "\<exists>v ext. alloc_step st h = (Inr v, h @ ext) \<and> read_step (h @ ext) v = Some st"
proof -
  from alloc_entries_reads [of alloc_transition read_transition "options st" h,
      OF alloc_transition_reads read_transition_append]
  obtain od e where od: "alloc_entries alloc_transition (options st) h = (Inr od, h @ e)"
    and rod: "read_entries (read_transition (h @ e)) od = Some (options st)" by blast
  let ?n = "length (h @ e)"
  let ?new = "[DictObj od, DictObj [(''question'', VStr (question st)), (''options'', VRef ?n)]]"
  have run: "alloc_step st h = (Inr (VRef (Suc ?n)), h @ (e @ ?new))"
    using od by (simp add: alloc_step_def bind_prog_def new_dict_def)
  have "read_entries (read_transition ((h @ e) @ ?new)) od = Some (options st)"
    using rod by (rule read_entries_mono [rotated]) (rule read_transition_append)
  then have "read_step (h @ (e @ ?new)) (VRef (Suc ?n)) = Some st"
    by (simp add: read_step_def read_dict_def deref_def nth_append)
  with run show ?thesis by blast
qed

lemma alloc_clause_reads:
  "\<exists>v ext. alloc_clause cl h = (Inr v, h @ ext) \<and> read_clause (h @ ext) v = Some cl"
proof -
  from alloc_entries_reads [of alloc_step read_step "steps cl" h,
      OF alloc_step_reads read_step_append]
  obtain sd e where sd: "alloc_entries alloc_step (steps cl) h = (Inr sd, h @ e)"
    and rsd: "read_entries (read_step (h @ e)) sd = Some (steps cl)" by blast
  let ?n = "length (h @ e)"
  let ?new = "[DictObj sd, DictObj [(''title'', VStr (title cl)), (''steps'', VRef ?n)]]"
  have run: "alloc_clause cl h = (Inr (VRef (Suc ?n)), h @ (e @ ?new))"
    using sd by (simp add: alloc_clause_def bind_prog_def new_dict_def)
  have "read_entries (read_step ((h @ e) @ ?new)) sd = Some (steps cl)"
    using rsd by (rule read_entries_mono [rotated]) (rule read_step_append)
  then have "read_clause (h @ (e @ ?new)) (VRef (Suc ?n)) = Some cl"
    by (simp add: read_clause_def read_dict_def deref_def nth_append)
  with run show ?thesis by blast
qed

lemma alloc_graph_reads:
  "\<exists>v ext. alloc_graph g h = (Inr v, h @ ext) \<and> read_graph (h @ ext) v = Some g"
proof -
  from alloc_entries_reads [of alloc_clause read_clause g h,
      OF alloc_clause_reads read_clause_append]
  obtain d e where d: "alloc_entries alloc_clause g h = (Inr d, h @ e)"
    and rd: "read_entries (read_clause (h @ e)) d = Some g" by blast
  let ?n = "length (h @ e)"
  have run: "alloc_graph g h = (Inr (VRef ?n), h @ (e @ [DictObj d]))"
    using d by (simp add: alloc_graph_def bind_prog_def new_dict_def)
  have "read_entries (read_clause ((h @ e) @ [DictObj d])) d = Some g"
    using rd by (rule read_entries_mono [rotated]) (rule read_clause_append)
  then have "read_graph (h @ (e @ [DictObj d])) (VRef ?n) = Some g"
    by (simp add: read_graph_def read_dict_def deref_def nth_append)
  with run show ?thesis by blast
qed

lemma module_state_graph: "read_graph module_heap module_trees = Some decision_trees"
proof -
  from alloc_graph_reads [of decision_trees "[]"] obtain v ext where
    "alloc_graph decision_trees [] = (Inr v, [] @ ext)" "read_graph ([] @ ext) v = Some decision_trees"
    by blast
  then show ?thesis by (simp add: module_heap_def module_trees_def)
qed

text \<open>
  C10. Run on any heap in which the module's name \<open>decision_trees\<close> holds the clause
  graphs, a call of \<open>evaluate_answer\<close> only adds objects: every object that was there,
  the graphs' included, is unchanged. A second call with the same arguments, on the heap
  the first one left, returns the same error, the same step id or a dictionary with the same
  verdict, namely what \<open>evaluate_answer\<close> gives as a function of its arguments.
\<close>

theorem evaluate_answer_heap_pure_deterministic:
  assumes "read_graph h trees = Some decision_trees"
  shows "\<exists>r1 ext1 r2 ext2.
      evaluate_answer_heap trees c s a h = (r1, h @ ext1)
      \<and> evaluate_answer_heap trees c s a (h @ ext1) = (r2, h @ ext1 @ ext2)
      \<and> read_graph (h @ ext1) trees = Some decision_trees
      \<and> read_graph (h @ ext1 @ ext2) trees = Some decision_trees
      \<and> read_result (h @ ext1) r1 = Some (evaluate_answer c s a)
      \<and> read_result (h @ ext1 @ ext2) r2 = Some (evaluate_answer c s a)"
proof -
  from evaluate_answer_heap_refines [OF assms, of c s a] obtain r1 ext1 where
    run1: "evaluate_answer_heap trees c s a h = (r1, h @ ext1)"
    and res1: "read_result (h @ ext1) r1 = Some (evaluate_answer c s a)"
    by (auto simp: evaluate_answer_def)
  have g1: "read_graph (h @ ext1) trees = Some decision_trees"
    using assms by (rule read_graph_append)
  from evaluate_answer_heap_refines [OF g1, of c s a] obtain r2 ext2 where
    run2: "evaluate_answer_heap trees c s a (h @ ext1) = (r2, (h @ ext1) @ ext2)"
    and res2: "read_result ((h @ ext1) @ ext2) r2 = Some (evaluate_answer c s a)"
    by (auto simp: evaluate_answer_def)
  have g2: "read_graph ((h @ ext1) @ ext2) trees = Some decision_trees"
    using g1 by (rule read_graph_append)
  from run1 res1 g1 run2 res2 g2 show ?thesis by (metis append_assoc)
qed

theorem evaluate_answer_heap_pure_deterministic_witness:
  "read_graph module_heap module_trees = Some decision_trees
   \<and> (\<exists>r1 ext1 r2 ext2.
      evaluate_answer_heap module_trees ''4.1'' ''5'' ''Partially or Vague'' module_heap
        = (r1, module_heap @ ext1)
      \<and> evaluate_answer_heap module_trees ''4.1'' ''5'' ''Partially or Vague'' (module_heap @ ext1)
        = (r2, module_heap @ ext1 @ ext2)
      \<and> read_graph (module_heap @ ext1 @ ext2) module_trees = Some decision_trees
      \<and> read_result (module_heap @ ext1) r1 = Some (Inr (Verdict (PyList [''OFI'', ''Minor NC''])))
      \<and> read_result (module_heap @ ext1 @ ext2) r2
          = Some (Inr (Verdict (PyList [''OFI'', ''Minor NC'']))))"
proof -
  have answer: "evaluate_answer ''4.1'' ''5'' ''Partially or Vague''
      = Inr (Verdict (PyList [''OFI'', ''Minor NC'']))"
    by (simp add: evaluate_answer_def evaluate_answer_on_def options_of_def decision_trees_def
        clause_4_1_def)
  from evaluate_answer_heap_pure_deterministic [OF module_state_graph,
      of "''4.1''" "''5''" "''Partially or Vague''"]
  show ?thesis unfolding answer using module_state_graph by blast
qed

text \<open>A store changes the object it addresses; \<open>evaluate_answer\<close> holds none.\<close>

lemma setitem_overwrites:
  "setitem (VRef 0) ''k'' (VStr ''new'') [DictObj [(''k'', VStr ''old'')]]
     = (Inr (), [DictObj [(''k'', VStr ''new'')]])"
  by (simp add: setitem_def deref_def)

section \<open>Properties of the clause graphs\<close>

lemma terminal_within_step:
  assumes "terminal_within cl n s"
  shows "\<exists>m st. n = Suc m \<and> map_of (steps cl) s = Some st \<and> options st \<noteq> []
           \<and> (\<forall>lbl t. (lbl, Continue t) \<in> set (options st) \<longrightarrow> terminal_within cl m t)"
proof (cases n)
  case 0
  with assms show ?thesis by simp
next
  case (Suc m)
  with assms obtain st where st: "map_of (steps cl) s = Some st" "options st \<noteq> []"
    and all: "list_all (\<lambda>(lbl, tr). case tr of Continue s' \<Rightarrow> terminal_within cl m s' | Terminal v \<Rightarrow> True)
            (options st)"
    by (auto split: option.splits)
  have "terminal_within cl m t" if "(lbl, Continue t) \<in> set (options st)" for lbl t
    using all that by (auto simp: list_all_iff)
  with Suc st show ?thesis by blast
qed

lemma walk_bounded:
  assumes cl: "map_of decision_trees cid = Some cl"
  shows "terminal_within cl n s \<Longrightarrow>
     submit_answers cid s answers \<noteq> Inl KeyError
     \<and> (\<forall>s'. submit_answers cid s answers = Inr (AtStep s') \<longrightarrow>
           length answers < n \<and> (\<exists>st. map_of (steps cl) s' = Some st \<and> options st \<noteq> []))"
proof (induction answers arbitrary: n s)
  case Nil
  from terminal_within_step [OF Nil.prems] show ?case
    by auto
next
  case (Cons a rest)
  from Cons.prems obtain m st where n: "n = Suc m" and st: "map_of (steps cl) s = Some st"
    and next_ok: "\<And>lbl t. (lbl, Continue t) \<in> set (options st) \<Longrightarrow> terminal_within cl m t"
    using terminal_within_step by blast
  show ?case
  proof (cases "map_of (options st) a")
    case None
    with cl st show ?thesis by (simp add: evaluate_answer_unfold)
  next
    case (Some tr)
    show ?thesis
    proof (cases tr)
      case (Terminal v)
      with cl st Some show ?thesis by (simp add: evaluate_answer_unfold)
    next
      case (Continue t)
      with Some have "(a, Continue t) \<in> set (options st)" by (simp add: map_of_SomeD)
      then have "terminal_within cl m t" by (rule next_ok)
      from Cons.IH [OF this] have
        "submit_answers cid t rest \<noteq> Inl KeyError
         \<and> (\<forall>s'. submit_answers cid t rest = Inr (AtStep s') \<longrightarrow>
               length rest < m \<and> (\<exists>st. map_of (steps cl) s' = Some st \<and> options st \<noteq> []))" .
      moreover have "submit_answers cid s (a # rest) = submit_answers cid t rest"
        using cl st Some Continue by (simp add: evaluate_answer_unfold)
      ultimately show ?thesis using n by auto
    qed
  qed
qed

lemma submit_answers_cases:
  "submit_answers cid s answers = Inl KeyError \<or> submit_answers cid s answers = Inl ValueError
   \<or> (\<exists>s'. submit_answers cid s answers = Inr (AtStep s'))
   \<or> (\<exists>v. submit_answers cid s answers = Inr (Finished v))"
proof (induction answers arbitrary: s)
  case Nil
  show ?case by simp
next
  case (Cons a rest)
  show ?case
  proof (cases "evaluate_answer cid s a")
    case (Inl e)
    moreover have "e = KeyError \<or> e = ValueError"
      using Inl by (auto simp: evaluate_answer_unfold split: option.splits transition.splits)
    ultimately show ?thesis by auto
  next
    case (Inr r)
    then show ?thesis using Cons.IH by (cases r) auto
  qed
qed

lemma no_dangling_iff:
  "no_dangling cl \<longleftrightarrow>
     (\<forall>sid st lbl nxt. (sid, st) \<in> set (steps cl) \<and> (lbl, Continue nxt) \<in> set (options st)
        \<longrightarrow> nxt \<in> set (map fst (steps cl)))"
  by (fastforce simp: no_dangling_def list_all_iff split: transition.splits)

lemma clauses_no_dangling:
  "no_dangling clause_4_1" "no_dangling clause_4_2" "no_dangling clause_4_3" "no_dangling clause_4_4"
  by (simp_all add: no_dangling_def clause_4_1_def clause_4_2_def clause_4_3_def clause_4_4_def)

lemma clauses_terminal_within:
  "terminal_within clause_4_1 5 ''1''" "terminal_within clause_4_2 5 ''1''"
  "terminal_within clause_4_3 5 ''1''" "terminal_within clause_4_4 5 ''1''"
  by (simp_all add: eval_nat_numeral clause_4_1_def clause_4_2_def clause_4_3_def clause_4_4_def)

lemma clauses_step_count:
  "length (steps clause_4_1) = 5" "length (steps clause_4_2) = 5"
  "length (steps clause_4_3) = 5" "length (steps clause_4_4) = 5"
  by (simp_all add: clause_4_1_def clause_4_2_def clause_4_3_def clause_4_4_def)

text \<open>
  C3. In every clause of \<open>decision_trees\<close>, each step id an option continues to is a step
  of the same clause, and the clause has five steps. From step 1, no sequence of answers
  runs into a missing step; a sequence of answers that were all accepted and gave no verdict
  yet is shorter than the step count and stands at a step that offers an option; so every
  sequence of valid choices as long as the step count has reached a verdict.
\<close>

theorem decision_trees_reach_terminal:
  assumes "map_of decision_trees cid = Some cl"
  shows "(\<forall>sid st lbl nxt. (sid, st) \<in> set (steps cl) \<and> (lbl, Continue nxt) \<in> set (options st)
            \<longrightarrow> nxt \<in> set (map fst (steps cl)))
     \<and> length (steps cl) = 5
     \<and> (\<forall>answers.
          submit_answers cid ''1'' answers \<noteq> Inl KeyError
          \<and> (\<forall>s. submit_answers cid ''1'' answers = Inr (AtStep s) \<longrightarrow>
                length answers < length (steps cl)
                \<and> (\<exists>opts. get_options cid s = Inr opts \<and> opts \<noteq> []))
          \<and> (length (steps cl) \<le> length answers \<longrightarrow>
                submit_answers cid ''1'' answers = Inl ValueError
                \<or> (\<exists>v. submit_answers cid ''1'' answers = Inr (Finished v))))"
proof -
  from assms have which: "cl = clause_4_1 \<or> cl = clause_4_2 \<or> cl = clause_4_3 \<or> cl = clause_4_4"
    by (rule known_clauses)
  then have nd: "no_dangling cl" and len: "length (steps cl) = 5" and tw: "terminal_within cl 5 ''1''"
    using clauses_no_dangling clauses_step_count clauses_terminal_within by auto
  have walk: "submit_answers cid ''1'' answers \<noteq> Inl KeyError
     \<and> (\<forall>s'. submit_answers cid ''1'' answers = Inr (AtStep s') \<longrightarrow>
           length answers < 5 \<and> (\<exists>st. map_of (steps cl) s' = Some st \<and> options st \<noteq> []))"
    for answers
    using walk_bounded [OF assms tw] .
  have a: "submit_answers cid ''1'' answers \<noteq> Inl KeyError" for answers
    using walk by blast
  have b: "length answers < length (steps cl) \<and> (\<exists>opts. get_options cid s = Inr opts \<and> opts \<noteq> [])"
    if "submit_answers cid ''1'' answers = Inr (AtStep s)" for answers s
  proof -
    from walk that obtain st where "length answers < 5" "map_of (steps cl) s = Some st" "options st \<noteq> []"
      by blast
    with assms len show ?thesis by (simp add: get_options_unfold)
  qed
  have c: "submit_answers cid ''1'' answers = Inl ValueError
           \<or> (\<exists>v. submit_answers cid ''1'' answers = Inr (Finished v))"
    if "length (steps cl) \<le> length answers" for answers
    using submit_answers_cases [of cid "''1''" answers] a [of answers] b [of answers] that
    by auto
  from nd have "\<forall>sid st lbl nxt. (sid, st) \<in> set (steps cl) \<and> (lbl, Continue nxt) \<in> set (options st)
            \<longrightarrow> nxt \<in> set (map fst (steps cl))"
    by (simp only: no_dangling_iff)
  with len a b c show ?thesis by blast
qed

theorem decision_trees_reach_terminal_witness:
  "map_of decision_trees ''4.1'' = Some clause_4_1
   \<and> submit_answers ''4.1'' ''1'' [''Yes'', ''Yes'', ''Clear Documentation''] = Inr (AtStep ''4'')
   \<and> length [''Yes'', ''Yes'', ''Clear Documentation''] < length (steps clause_4_1)
   \<and> get_options ''4.1'' ''4'' = Inr [''Regularly Reviewed'', ''Irregular or Not Formalized'']
   \<and> submit_answers ''4.1'' ''1''
        [''Yes'', ''Yes'', ''Clear Documentation'', ''Regularly Reviewed'', ''Yes'']
      = Inr (Finished (PyStr ''Complied''))"
proof -
  have h: "map_of decision_trees ''4.1'' = Some clause_4_1"
    by (simp add: decision_trees_def)
  show ?thesis
    using h decision_trees_reach_terminal [OF h]
    by (simp add: evaluate_answer_unfold get_options_unfold clause_4_1_def)
qed

section \<open>Properties of the summary\<close>

lemma increment_absent:
  "\<not> in_counts p counts \<Longrightarrow> increment p counts = counts"
  by (cases p) (force simp: in_counts_def increment_def intro!: map_idI)+

lemma count_loop_counts:
  "\<forall>(cid, v) \<in> set responses. v \<noteq> PyList [] \<Longrightarrow>
     count_loop responses counts =
       Inr (map (\<lambda>(k, n). (k, n + int (counted k responses))) counts)"
proof (induction responses arbitrary: counts)
  case Nil
  show ?case by (simp add: counted_def)
next
  case (Cons r rest)
  obtain cid v where r: "r = (cid, v)" by (cases r)
  from Cons.prems r have "v \<noteq> PyList []" by simp
  then have "\<exists>p. primary v = Inr p"
  proof (cases v)
    case (PyList xs)
    with \<open>v \<noteq> PyList []\<close> obtain x xs' where "xs = x # xs'" by (cases xs) auto
    with PyList show ?thesis by (simp add: primary_def)
  qed (simp_all add: primary_def)
  then obtain p where p: "primary v = Inr p" ..
  have step: "count_loop (r # rest) counts = count_loop rest (increment p counts)"
    using r p by (simp add: increment_absent)
  have "count_loop rest (increment p counts) =
       Inr (map (\<lambda>(k, n). (k, n + int (counted k rest))) (increment p counts))"
    using Cons.prems by (intro Cons.IH) simp
  also have "map (\<lambda>(k, n). (k, n + int (counted k rest))) (increment p counts) =
       map (\<lambda>(k, n). (k, n + int (counted k (r # rest)))) counts"
    using r p by (auto simp: increment_def counted_def)
  finally show ?case using step by simp
qed

lemma verdict_counts_by_primary:
  "\<forall>(cid, v) \<in> set responses. v \<noteq> PyList [] \<Longrightarrow>
     verdict_counts responses =
       Inr [(''Complied'', int (counted ''Complied'' responses)),
            (''Minor NC'', int (counted ''Minor NC'' responses)),
            (''Opportunity for Improvement'', int (counted ''Opportunity for Improvement'' responses)),
            (''Major NC'', int (counted ''Major NC'' responses))]"
  by (simp add: verdict_counts_def count_loop_counts) (simp add: verdict_counts_init_def)

lemma verdict_counts_example:
  "verdict_counts [(''4.1'', PyStr ''Complied''), (''4.2'', PyList [''Minor NC'', ''OFI'']),
                   (''4.3'', PyStr ''Major NC'')]
   = Inr [(''Complied'', 1), (''Minor NC'', 1), (''Opportunity for Improvement'', 0), (''Major NC'', 1)]"
  by (simp add: verdict_counts_def verdict_counts_init_def primary_def in_counts_def increment_def)

text \<open>
  C5. The counters start with the four verdicts at zero and a recorded verdict is counted
  under its primary. The graphs write the verdict Opportunity for Improvement as \<open>OFI\<close>
  inside a compound verdict, and no counter has that name: the verdict that the answer
  Partially or Vague gives at step 5 of clause 4.1 has the primary \<open>OFI\<close> and raises no
  counter, the one for Opportunity for Improvement included.
\<close>

theorem verdict_counts_ofi_primary_uncounted:
  "evaluate_answer ''4.1'' ''5'' ''Partially or Vague'' = Inr (Verdict (PyList [''OFI'', ''Minor NC'']))
   \<and> verdict_counts [(''4.1'', PyList [''OFI'', ''Minor NC''])]
     = Inr [(''Complied'', 0), (''Minor NC'', 0), (''Opportunity for Improvement'', 0), (''Major NC'', 0)]"
  by (simp add: evaluate_answer_def evaluate_answer_on_def options_of_def decision_trees_def
      clause_4_1_def verdict_counts_def verdict_counts_init_def primary_def in_counts_def)

text \<open>
  C6, as the code has it. For an analysis whose verdict is Complied,
  \<open>generate_recommendations\<close> returns the one-element list with the Indonesian sentence
  \<open>Pertahankan praktik yang telah berjalan dengan baik.\<close>
\<close>

theorem generate_recommendations_complied:
  "dict_get analysis ''verdict'' = PyStr ''Complied'' \<Longrightarrow>
     generate_recommendations analysis = [''Pertahankan praktik yang telah berjalan dengan baik.'']"
  by (simp add: generate_recommendations_def)

theorem generate_recommendations_complied_witness:
  "dict_get [(''clause'', PyStr ''4.1''), (''verdict'', PyStr ''Complied'')] ''verdict'' = PyStr ''Complied''
   \<and> generate_recommendations [(''clause'', PyStr ''4.1''), (''verdict'', PyStr ''Complied'')]
       = [''Pertahankan praktik yang telah berjalan dengan baik.'']"
proof -
  have h: "dict_get [(''clause'', PyStr ''4.1''), (''verdict'', PyStr ''Complied'')] ''verdict''
             = PyStr ''Complied''"
    by (simp add: dict_get_def)
  from h generate_recommendations_complied [OF h] show ?thesis by simp
qed

text \<open>
  C6, as the specification states it, fails: the list returned for a Complied verdict is
  not the English sentence \<open>Maintain the practices that are already working well.\<close>
\<close>

theorem generate_recommendations_complied_counterexample:
  "generate_recommendations [(''clause'', PyStr ''4.1''), (''verdict'', PyStr ''Complied'')]
     \<noteq> [''Maintain the practices that are already working well.'']"
  by (simp add: generate_recommendations_def dict_get_def)

lemma set_fold_fromkeys:
  "set (fold (\<lambda>x ks. if x \<in> set ks then ks else ks @ [x]) xs acc) = set acc \<union> set xs"
  by (induction xs arbitrary: acc) auto

lemma set_fromkeys: "set (fromkeys xs) = set xs"
  by (simp add: fromkeys_def set_fold_fromkeys)

text \<open>
  C7. For an analysis whose verdict is a list, whatever its elements,
  \<open>generate_recommendations\<close> returns the two Major NC lines; and when a recorded verdict
  is a list, the quick recommendations hold both Major NC lines.
\<close>

theorem generate_recommendations_compound:
  "(dict_get analysis ''verdict'' = PyList xs \<longrightarrow>
      generate_recommendations analysis =
        [''Segera implementasikan proses sesuai klausul yang belum ada.'',
         ''Susun dan dokumentasikan prosedur dasar untuk kepatuhan awal.''])
   \<and> ((cid, PyList xs) \<in> set responses \<longrightarrow>
        set [''Segera implementasikan proses sesuai klausul yang belum ada.'',
             ''Susun dan dokumentasikan prosedur dasar untuk kepatuhan awal.'']
        \<subseteq> set (quick_recommendations responses))"
proof (intro conjI impI)
  assume "dict_get analysis ''verdict'' = PyList xs"
  then show "generate_recommendations analysis =
        [''Segera implementasikan proses sesuai klausul yang belum ada.'',
         ''Susun dan dokumentasikan prosedur dasar untuk kepatuhan awal.'']"
    by (simp add: generate_recommendations_def)
next
  assume mem: "(cid, PyList xs) \<in> set responses"
  have "generate_recommendations [(''clause'', PyStr cid), (''verdict'', PyList xs)] =
        [''Segera implementasikan proses sesuai klausul yang belum ada.'',
         ''Susun dan dokumentasikan prosedur dasar untuk kepatuhan awal.'']"
    by (simp add: generate_recommendations_def dict_get_def)
  with mem have "set [''Segera implementasikan proses sesuai klausul yang belum ada.'',
             ''Susun dan dokumentasikan prosedur dasar untuk kepatuhan awal.'']
        \<subseteq> set (all_recs responses)"
    unfolding all_recs_def set_concat set_map by force
  then show "set [''Segera implementasikan proses sesuai klausul yang belum ada.'',
             ''Susun dan dokumentasikan prosedur dasar untuk kepatuhan awal.'']
        \<subseteq> set (quick_recommendations responses)"
    by (simp only: quick_recommendations_def set_fromkeys)
qed

theorem generate_recommendations_compound_witness:
  "generate_recommendations [(''clause'', PyStr ''4.1''), (''verdict'', PyList [''Minor NC'', ''OFI''])]
     = [''Segera implementasikan proses sesuai klausul yang belum ada.'',
        ''Susun dan dokumentasikan prosedur dasar untuk kepatuhan awal.'']
   \<and> quick_recommendations [(''4.1'', PyList [''Minor NC'', ''OFI''])]
     = [''Segera implementasikan proses sesuai klausul yang belum ada.'',
        ''Susun dan dokumentasikan prosedur dasar untuk kepatuhan awal.'']"
  using generate_recommendations_compound
     [of "[(''clause'', PyStr ''4.1''), (''verdict'', PyList [''Minor NC'', ''OFI''])]"
         "[''Minor NC'', ''OFI'']" "''4.1''" "[(''4.1'', PyList [''Minor NC'', ''OFI''])]"]
  by (simp add: dict_get_def quick_recommendations_def all_recs_def fromkeys_def
      generate_recommendations_def)

lemma py_str_compound_example:
  "py_str isprintable (PyList [''Minor NC'', ''OFI''])
   = ''['' @ [CHR 0x27] @ ''Minor NC'' @ [CHR 0x27] @ '', '' @ [CHR 0x27] @ ''OFI'' @ [CHR 0x27] @ '']''"
  by (simp add: py_repr_str_def repr_char_def codepoint_def seq_len_def Let_def)

lemma py_repr_str_nbsp_example:
  "py_repr_str (\<lambda>n. n \<noteq> 0xA0) (''a'' @ [CHR 0xC2, CHR 0xA0])
   = [CHR 0x27] @ ''a'' @ [CHR 0x5C] @ ''xa0'' @ [CHR 0x27]"
  by (simp add: py_repr_str_def repr_char_def codepoint_def seq_len_def hex_digit_def
      numeral_2_eq_2 Let_def)

lemma checklist_loop_acc:
  "checklist_loop isprintable xs acc =
     acc @ map (checklist_line isprintable) (filter not_complied xs)"
  by (induction xs arbitrary: acc) (simp_all add: checklist_line_def not_complied_def Let_def)

text \<open>
  C9. \<open>generate_checklist\<close> returns one line for each analysis whose verdict is not
  Complied, in the order of the input, each line naming the clause and the verdict; when no
  analysis is left it returns the one fixed sentence instead of the empty list.
\<close>

theorem generate_checklist_lines:
  "generate_checklist isprintable analysis_list =
     (if filter not_complied analysis_list = []
      then [''Semua klausul telah terpenuhi. Tidak ada tindakan tambahan yang diperlukan.'']
      else map (checklist_line isprintable) (filter not_complied analysis_list))"
  by (simp add: generate_checklist_def checklist_loop_acc Let_def)

theorem generate_checklist_lines_witness:
  "generate_checklist (\<lambda>n. True)
     [[(''clause'', PyStr ''4.1''), (''verdict'', PyStr ''Complied'')],
      [(''clause'', PyStr ''4.2''), (''verdict'', PyStr ''Major NC'')],
      [(''clause'', PyStr ''4.3''), (''verdict'', PyStr ''Complied'')],
      [(''clause'', PyStr ''4.4''), (''verdict'', PyStr ''Minor NC'')]]
   = [''Tinjau dan perbaiki klausul 4.2: verdict = Major NC'',
      ''Tinjau dan perbaiki klausul 4.4: verdict = Minor NC'']
   \<and> generate_checklist (\<lambda>n. True)
     [[(''clause'', PyStr ''4.1''), (''verdict'', PyStr ''Complied'')],
      [(''clause'', PyStr ''4.2''), (''verdict'', PyStr ''Complied'')]]
   = [''Semua klausul telah terpenuhi. Tidak ada tindakan tambahan yang diperlukan.'']"
  using generate_checklist_lines [of "\<lambda>n. True"
     "[[(''clause'', PyStr ''4.1''), (''verdict'', PyStr ''Complied'')],
      [(''clause'', PyStr ''4.2''), (''verdict'', PyStr ''Major NC'')],
      [(''clause'', PyStr ''4.3''), (''verdict'', PyStr ''Complied'')],
      [(''clause'', PyStr ''4.4''), (''verdict'', PyStr ''Minor NC'')]]"]
    generate_checklist_lines [of "\<lambda>n. True"
     "[[(''clause'', PyStr ''4.1''), (''verdict'', PyStr ''Complied'')],
      [(''clause'', PyStr ''4.2''), (''verdict'', PyStr ''Complied'')]]"]
  by (simp add: not_complied_def checklist_line_def dict_get_def)

section \<open>Properties of the open-ended evaluation\<close>

lemma py_strip_unicode_example:
  "py_strip ([CHR 0xC2, CHR 0xA0] @ '' '' @ [CHR 0xE2, CHR 0x80, CHR 0x83]) = []"
  by (simp add: py_strip_def is_space_def codepoint_def seq_len_def Let_def)

lemma whitespace_response_short_circuits:
  "py_strip text = [] \<Longrightarrow>
     evaluate_open_text_compliance client clause_id (Some text) document_context =
       (Inr (JStr ''Major NC'',
             JObj [(''relevance'', JNum (Finite 0)), (''completeness'', JNum (Finite 0))],
             JStr ''No response provided''), [])"
  by (simp add: evaluate_open_text_compliance_def)

lemma score_to_verdict_untyped_floats:
  "score_to_verdict_untyped (JNum r) (JNum c) = Inr (score_to_verdict r c)"
  by (simp add: score_to_verdict_untyped_def score_to_verdict_def both_ge_def either_lt_def
      cmp_ge_def cmp_lt_def as_number_def)

lemma reply_result_null_scores_example:
  "reply_result (JObj [(''scores'', JNull), (''verdict'', JStr ''Complied'')])
     = Inr (JStr ''Complied'', JNull, JStr [])
   \<and> reply_result (JObj [(''scores'', JNull)]) = Inl AttributeError"
  by (simp add: reply_result_def json_get_def truthy_def)

text \<open>
  C8. For a response that is missing or empty, \<open>evaluate_open_text_compliance\<close> returns
  Major NC with both scores 0.0 and the note \<open>No response provided\<close>, whatever the service
  would answer, and sends nothing to the service.
\<close>

theorem empty_response_short_circuits:
  "user_response = None \<or> user_response = Some [] \<Longrightarrow>
     evaluate_open_text_compliance client clause_id user_response document_context =
       (Inr (JStr ''Major NC'',
             JObj [(''relevance'', JNum (Finite 0)), (''completeness'', JNum (Finite 0))],
             JStr ''No response provided''), [])"
  by (auto simp: evaluate_open_text_compliance_def)

theorem empty_response_short_circuits_witness:
  "evaluate_open_text_compliance (\<lambda>c t d. Inl RuntimeError) ''4.1'' (Some []) None =
       (Inr (JStr ''Major NC'',
             JObj [(''relevance'', JNum (Finite 0)), (''completeness'', JNum (Finite 0))],
             JStr ''No response provided''), [])
   \<and> evaluate_open_text_compliance (\<lambda>c t d. Inl RuntimeError) ''4.1'' None (Some ''notes'') =
       (Inr (JStr ''Major NC'',
             JObj [(''relevance'', JNum (Finite 0)), (''completeness'', JNum (Finite 0))],
             JStr ''No response provided''), [])"
  using empty_response_short_circuits [of "Some []" "\<lambda>c t d. Inl RuntimeError" "''4.1''" None]
    empty_response_short_circuits [of None "\<lambda>c t d. Inl RuntimeError" "''4.1''" "Some ''notes''"]
  by simp

end
